theory Spec2Isabelle
  imports Main "HOL-Library.Multiset"
begin

section \<open>Python values and exceptions\<close>

text \<open>
  A decoded JSON document, as \<^verbatim>\<open>json.loads\<close> returns it: a dict keeps the order of its
  fields, so an object is an association list. Numbers are integers (the snapshot wire
  format carries identifiers, timestamps and blobs as text and the sequence index as an
  integer). The messages that the functions print and return are given without their
  leading check-mark symbol.
\<close>

datatype json =
    JNull
  | JBool bool
  | JInt int
  | JStr string
  | JArr "json list"
  | JObj "(string \<times> json) list"

text \<open>
  The exception classes the modelled code can raise. \<open>NotFoundError\<close> is the name used by
  the specification's error taxonomy; it is listed so that statements can mention it.
\<close>

datatype error =
    AttributeError
  | TypeError
  | OverflowError
  | FileNotFoundError
  | JSONDecodeError
  | ValidationError
  | OperationalError
  | IntegrityError
  | ProgrammingError
  | ValueError
  | ResourceNotFoundError
  | NotFoundError

text \<open>
  The bytes of a file or of a storage object, seen through \<^verbatim>\<open>json.loads\<close>:
  \<open>Some doc\<close> when they decode to \<open>doc\<close>, \<open>None\<close> when decoding raises.
\<close>

type_synonym content = "json option"

text \<open>\<^verbatim>\<open>data.get(key, default)\<close>: only a dict has the method.\<close>

fun dict_get :: "json \<Rightarrow> string \<Rightarrow> json \<Rightarrow> error + json" where
  "dict_get (JObj kvs) k d = Inr (case map_of kvs k of None \<Rightarrow> d | Some v \<Rightarrow> v)"
| "dict_get JNull k d = Inl AttributeError"
| "dict_get (JBool b) k d = Inl AttributeError"
| "dict_get (JInt i) k d = Inl AttributeError"
| "dict_get (JStr s) k d = Inl AttributeError"
| "dict_get (JArr xs) k d = Inl AttributeError"

text \<open>
  \<^verbatim>\<open>for row in rows\<close>: a list yields its elements, a dict its keys, a string its
  characters; anything else is not iterable.
\<close>

fun py_iter :: "json \<Rightarrow> error + json list" where
  "py_iter (JArr xs) = Inr xs"
| "py_iter (JObj kvs) = Inr (map (\<lambda>kv. JStr (fst kv)) kvs)"
| "py_iter (JStr s) = Inr (map (\<lambda>c. JStr [c]) s)"
| "py_iter JNull = Inl TypeError"
| "py_iter (JBool b) = Inl TypeError"
| "py_iter (JInt i) = Inl TypeError"

text \<open>\<^verbatim>\<open>tuple(row.values())\<close>: the values of a dict in the order of its fields.\<close>

fun row_values :: "json \<Rightarrow> error + json list" where
  "row_values (JObj kvs) = Inr (map snd kvs)"
| "row_values JNull = Inl AttributeError"
| "row_values (JBool b) = Inl AttributeError"
| "row_values (JInt i) = Inl AttributeError"
| "row_values (JStr s) = Inl AttributeError"
| "row_values (JArr xs) = Inl AttributeError"

section \<open>The embedded relational store\<close>

text \<open>
  The part of SQLite the repository relies on: tables with a primary key and foreign
  keys, secondary indices, row insertion and deletion, and the connection-scoped
  switch for foreign-key enforcement. Values are kept as they are bound (no column
  affinity).
\<close>

datatype sqlval = SNull | SInt int | SText string

datatype fk_action = NoAction | Cascade

record fkey =
  fk_col :: string
  fk_table :: string
  fk_ref :: string
  on_delete :: fk_action

record table =
  cols :: "string list"
  pkey :: "string list"
  fkeys :: "fkey list"
  rows :: "sqlval list list"

datatype jmode = RollbackJournal | WAL

record database =
  tables :: "(string \<times> table) list"
  indices :: "(string \<times> string \<times> string list) list"
  journal_mode :: jmode

definition empty_db :: database where
  "empty_db = \<lparr>tables = [], indices = [], journal_mode = RollbackJournal\<rparr>"

definition col_val :: "table \<Rightarrow> sqlval list \<Rightarrow> string \<Rightarrow> sqlval" where
  "col_val t r c = (case map_of (zip (cols t) r) c of None \<Rightarrow> SNull | Some v \<Rightarrow> v)"

definition set_table :: "string \<Rightarrow> table \<Rightarrow> database \<Rightarrow> database" where
  "set_table n t db =
     db\<lparr>tables := map (\<lambda>kv. if fst kv = n then (n, t) else kv) (tables db)\<rparr>"

text \<open>Binding one Python value as a statement parameter.\<close>

fun bind_param :: "json \<Rightarrow> error + sqlval" where
  "bind_param JNull = Inr SNull"
| "bind_param (JBool b) = Inr (SInt (if b then 1 else 0))"
| "bind_param (JInt i) =
     (if - (2 ^ 63) \<le> i \<and> i < 2 ^ 63 then Inr (SInt i) else Inl OverflowError)"
| "bind_param (JStr s) = Inr (SText s)"
| "bind_param (JArr xs) = Inl ProgrammingError"
| "bind_param (JObj kvs) = Inl ProgrammingError"

fun bind_all :: "json list \<Rightarrow> error + sqlval list" where
  "bind_all [] = Inr []"
| "bind_all (p # ps) =
     (case bind_param p of
        Inl e \<Rightarrow> Inl e
      | Inr v \<Rightarrow> (case bind_all ps of Inl e \<Rightarrow> Inl e | Inr vs \<Rightarrow> Inr (v # vs)))"

text \<open>
  \<^verbatim>\<open>INSERT INTO <into> (<columns>) VALUES (?, ..., ?)\<close>: one placeholder per listed
  column, bound by position.
\<close>

record insert_stmt =
  into :: string
  columns :: "string list"

definition pk_conflict :: "table \<Rightarrow> sqlval list \<Rightarrow> bool" where
  "pk_conflict t r =
     (pkey t \<noteq> [] \<and> \<not> List.member (map (col_val t r) (pkey t)) SNull \<and>
      list_ex (\<lambda>r'. map (col_val t r') (pkey t) = map (col_val t r) (pkey t)) (rows t))"

definition fk_holds :: "database \<Rightarrow> table \<Rightarrow> sqlval list \<Rightarrow> fkey \<Rightarrow> bool" where
  "fk_holds db t r f =
     (let v = col_val t r (fk_col f) in
      if v = SNull then True
      else (case map_of (tables db) (fk_table f) of
              None \<Rightarrow> False
            | Some pt \<Rightarrow> List.member (map (\<lambda>r'. col_val pt r' (fk_ref f)) (rows pt)) v))"

definition insert_row ::
  "bool \<Rightarrow> string \<Rightarrow> table \<Rightarrow> string list \<Rightarrow> sqlval list \<Rightarrow> database \<Rightarrow> error + database" where
  "insert_row fk n t cs vs db =
     (let r = map (\<lambda>c. case map_of (zip cs vs) c of None \<Rightarrow> SNull | Some v \<Rightarrow> v) (cols t) in
      if pk_conflict t r then Inl IntegrityError
      else
        (let db' = set_table n (t\<lparr>rows := rows t @ [r]\<rparr>) db in
         if fk \<and> \<not> list_all (fk_holds db' t r) (fkeys t) then Inl IntegrityError
         else Inr db'))"

subsection \<open>Connections\<close>

datatype smode = SyncOff | SyncNormal | SyncFull

datatype tmode = TempDefault | TempFile | TempMemory

text \<open>
  A connection works on its own copy of the database; \<open>commit\<close> publishes the copy,
  \<open>rollback\<close> discards it. Foreign-key enforcement is a setting of the connection and
  is off when a connection opens (SQLite's default).
\<close>

record connection =
  con_path :: string
  foreign_keys :: bool
  synchronous :: smode
  temp_store :: tmode
  work :: database

datatype log_entry =
    Calling string
  | Returned string
  | Raised string error

text \<open>
  The world the pipeline runs in: the store files by path (a path with no file reads as
  the empty database), the other local files by path, the number of connections currently open,
  the lines written by the logging decorator, and the directories that exist (the
  current directory and the root always do).
\<close>

record world =
  stores :: "string \<Rightarrow> database"
  files :: "(string \<times> content) list"
  open_conns :: nat
  log_lines :: "log_entry list"
  dirs :: "string list"

text \<open>
  \<^verbatim>\<open>os.path.dirname\<close> (POSIX): the path up to its last slash, without trailing
  slashes unless it consists of slashes only.
\<close>

definition dirname :: "string \<Rightarrow> string" where
  "dirname p =
     (let head = rev (dropWhile (\<lambda>c. c \<noteq> CHR ''/'') (rev p))
      in if head \<noteq> [] \<and> \<not> list_all (\<lambda>c. c = CHR ''/'') head
         then rev (dropWhile (\<lambda>c. c = CHR ''/'') (rev head))
         else head)"

definition dir_exists :: "world \<Rightarrow> string \<Rightarrow> bool" where
  "dir_exists w d =
     (d = ''.'' \<or> list_all (\<lambda>c. c = CHR ''/'') d \<or> List.member (dirs w) d)"

text \<open>
  \<^verbatim>\<open>os.makedirs(d, exist_ok=True)\<close>: nothing when the directory exists, otherwise the
  directory is created together with the directories above it.
\<close>

fun dirs_above :: "string \<Rightarrow> string \<Rightarrow> string list" where
  "dirs_above seen [] = []"
| "dirs_above seen (c # cs) =
     (if c = CHR ''/'' \<and> seen \<noteq> [] then [seen] else []) @ dirs_above (seen @ [c]) cs"

definition makedirs :: "string \<Rightarrow> world \<Rightarrow> world" where
  "makedirs d w =
     (if dir_exists w d then w else w\<lparr>dirs := dirs_above [] d @ [d] @ dirs w\<rparr>)"

text \<open>
  \<^verbatim>\<open>sqlite3.connect\<close> opens the file, creating it when it is missing, and raises
  \<open>OperationalError\<close> (unable to open database file) when the directory of the path
  does not exist.
\<close>

definition can_open :: "world \<Rightarrow> string \<Rightarrow> bool" where
  "can_open w p = dir_exists w (dirname p)"

definition open_connection :: "string \<Rightarrow> database \<Rightarrow> connection" where
  "open_connection p db =
     \<lparr>con_path = p, foreign_keys = False, synchronous = SyncFull,
      temp_store = TempDefault, work = db\<rparr>"

definition connect :: "string \<Rightarrow> world \<Rightarrow> (error + connection) \<times> world" where
  "connect p w =
     (if can_open w p
      then (Inr (open_connection p (stores w p)), w\<lparr>open_conns := Suc (open_conns w)\<rparr>)
      else (Inl OperationalError, w))"

definition execute :: "connection \<Rightarrow> insert_stmt \<Rightarrow> json list \<Rightarrow> error + connection" where
  "execute con st params =
     (case map_of (tables (work con)) (into st) of
        None \<Rightarrow> Inl OperationalError
      | Some t \<Rightarrow>
          if \<not> list_all (\<lambda>c. List.member (cols t) c) (columns st) then Inl OperationalError
          else if length params \<noteq> length (columns st) then Inl ProgrammingError
          else
            (case bind_all params of
               Inl e \<Rightarrow> Inl e
             | Inr vs \<Rightarrow>
                 (case insert_row (foreign_keys con) (into st) t (columns st) vs (work con) of
                    Inl e \<Rightarrow> Inl e
                  | Inr db \<Rightarrow> Inr (con\<lparr>work := db\<rparr>))))"

definition commit :: "connection \<Rightarrow> world \<Rightarrow> world" where
  "commit con w = w\<lparr>stores := (stores w)(con_path con := work con)\<rparr>"

definition rollback :: "connection \<Rightarrow> world \<Rightarrow> connection" where
  "rollback con w = con\<lparr>work := stores w (con_path con)\<rparr>"

definition close :: "connection \<Rightarrow> world \<Rightarrow> world" where
  "close con w = w\<lparr>open_conns := open_conns w - 1\<rparr>"

section \<open>The logging decorator\<close>

text \<open>
  \<^verbatim>\<open>log_this\<close> writes a line on entry, calls the function, writes a line with the
  outcome, and returns the result or re-raises the exception unchanged.
\<close>

definition log_this ::
  "string \<Rightarrow> (world \<Rightarrow> (error + 'a) \<times> world) \<Rightarrow> world \<Rightarrow> (error + 'a) \<times> world" where
  "log_this fname body w =
     (let w1 = w\<lparr>log_lines := log_lines w @ [Calling fname]\<rparr>;
          res = body w1;
          line = (case fst res of Inl e \<Rightarrow> Raised fname e | Inr v \<Rightarrow> Returned fname)
      in (fst res, (snd res)\<lparr>log_lines := log_lines (snd res) @ [line]\<rparr>))"

section \<open>The load stage\<close>

text \<open>The loop \<^verbatim>\<open>for row in rows: con.execute(insert_statement, tuple(row.values()))\<close>.\<close>

fun insert_rows :: "connection \<Rightarrow> insert_stmt \<Rightarrow> json list \<Rightarrow> (error + unit) \<times> connection" where
  "insert_rows con st [] = (Inr (), con)"
| "insert_rows con st (row # rest) =
     (case row_values row of
        Inl e \<Rightarrow> (Inl e, con)
      | Inr params \<Rightarrow>
          (case execute con st params of
             Inl e \<Rightarrow> (Inl e, con)
           | Inr con' \<Rightarrow> insert_rows con' st rest))"

text \<open>The body of the \<^verbatim>\<open>try\<close> block of \<^verbatim>\<open>insert_to_db\<close>, up to the commit.\<close>

definition insert_try ::
  "connection \<Rightarrow> string \<Rightarrow> string \<Rightarrow> insert_stmt \<Rightarrow> world \<Rightarrow> (error + unit) \<times> connection" where
  "insert_try con json_file_path table_name insert_statement w =
     (case map_of (files w) json_file_path of
        None \<Rightarrow> (Inl FileNotFoundError, con)
      | Some None \<Rightarrow> (Inl JSONDecodeError, con)
      | Some (Some data) \<Rightarrow>
          (case dict_get data table_name (JArr []) of
             Inl e \<Rightarrow> (Inl e, con)
           | Inr rws \<Rightarrow>
               (case py_iter rws of
                  Inl e \<Rightarrow> (Inl e, con)
                | Inr rs \<Rightarrow> insert_rows con insert_statement rs)))"

text \<open>
  What one call of \<^verbatim>\<open>insert_to_db\<close> publishes, as a function of the database it finds
  and of the decoded document: the rows of one table inserted one after the other on a
  freshly opened connection, or the first exception.
\<close>

definition table_load ::
  "json \<Rightarrow> string \<Rightarrow> insert_stmt \<Rightarrow> string \<Rightarrow> database \<Rightarrow> error + database" where
  "table_load data table_name insert_statement db_path db =
     (case dict_get data table_name (JArr []) of
        Inl e \<Rightarrow> Inl e
      | Inr rws \<Rightarrow>
          (case py_iter rws of
             Inl e \<Rightarrow> Inl e
           | Inr rs \<Rightarrow>
               (let res = insert_rows (open_connection db_path db) insert_statement rs
                in case fst res of Inl e \<Rightarrow> Inl e | Inr u \<Rightarrow> Inr (work (snd res)))))"

definition insert_to_db_body ::
  "string \<Rightarrow> string \<Rightarrow> insert_stmt \<Rightarrow> string \<Rightarrow> world \<Rightarrow> (error + string) \<times> world" where
  "insert_to_db_body json_file_path table_name insert_statement db_path w =
     (let cw = connect db_path w
      in case fst cw of
           Inl e \<Rightarrow> (Inl e, snd cw)
         | Inr con \<Rightarrow>
             (let res = insert_try con json_file_path table_name insert_statement (snd cw)
              in case fst res of
                   Inr u \<Rightarrow>
                     (Inr (''Data inserted successfully to '' @ table_name @ ''.''),
                      close (snd res) (commit (snd res) (snd cw)))
                 | Inl e \<Rightarrow>
                     (Inl e, close (rollback (snd res) (snd cw)) (snd cw))))"

definition insert_to_db ::
  "string \<Rightarrow> string \<Rightarrow> insert_stmt \<Rightarrow> string \<Rightarrow> world \<Rightarrow> (error + string) \<times> world" where
  "insert_to_db json_file_path table_name insert_statement db_path =
     log_this ''insert_to_db''
       (insert_to_db_body json_file_path table_name insert_statement db_path)"

section \<open>Locating and fetching the snapshot\<close>

record blob =
  name :: string
  creation_time :: int
  blob_content :: content

definition starts_with :: "string \<Rightarrow> string \<Rightarrow> bool" where
  "starts_with p s = (take (length p) s = p)"

text \<open>\<^verbatim>\<open>container_client.list_blobs(name_starts_with=...)\<close>, in the order of the listing.\<close>

definition list_blobs :: "blob list \<Rightarrow> string \<Rightarrow> blob list" where
  "list_blobs container name_starts_with =
     filter (\<lambda>b. starts_with name_starts_with (name b)) container"

text \<open>
  Python's \<^verbatim>\<open>max(iterable, key=..., default=None)\<close>: the first element whose key no later
  element exceeds, \<open>None\<close> for an empty iterable.
\<close>

fun max_by :: "('a \<Rightarrow> int) \<Rightarrow> 'a list \<Rightarrow> 'a option" where
  "max_by key [] = None"
| "max_by key (x # xs) = Some (foldl (\<lambda>best y. if key best < key y then y else best) x xs)"

definition latest_blob :: "blob list \<Rightarrow> blob option" where
  "latest_blob container = max_by creation_time (list_blobs container ''backup_'')"

text \<open>
  \<^verbatim>\<open>tempfile.NamedTemporaryFile(delete=False)\<close> creates a file under a name no file has;
  the model takes a name longer than every existing one.
\<close>

definition fresh_path :: "(string \<times> content) list \<Rightarrow> string" where
  "fresh_path fs = replicate (Suc (foldr max (map (\<lambda>kv. length (fst kv)) fs) 0)) CHR ''t''"

definition download_latest_json_body :: "blob list \<Rightarrow> world \<Rightarrow> (error + string) \<times> world" where
  "download_latest_json_body container w =
     (case latest_blob container of
        None \<Rightarrow> (Inl AttributeError, w)
      | Some b \<Rightarrow>
          (case find (\<lambda>b'. name b' = name b) container of
             None \<Rightarrow> (Inl ResourceNotFoundError, w)
           | Some d \<Rightarrow>
               (let tmp_file_path = fresh_path (files w)
                in (Inr tmp_file_path,
                    w\<lparr>files := (tmp_file_path, blob_content d) # files w\<rparr>))))"

definition download_latest_json :: "blob list \<Rightarrow> world \<Rightarrow> (error + string) \<times> world" where
  "download_latest_json container =
     log_this ''download_latest_json'' (download_latest_json_body container)"

section \<open>Validation\<close>

text \<open>
  The JSON schema of \<^verbatim>\<open>json/schema.json\<close> enters as the predicate \<open>conforms\<close> that
  \<^verbatim>\<open>jsonschema.validate\<close> decides.
\<close>

definition validate_json_string_body ::
  "(json \<Rightarrow> bool) \<Rightarrow> string \<Rightarrow> world \<Rightarrow> (error + string) \<times> world" where
  "validate_json_string_body conforms json_file_path w =
     (case map_of (files w) json_file_path of
        None \<Rightarrow> (Inl FileNotFoundError, w)
      | Some None \<Rightarrow> (Inl JSONDecodeError, w)
      | Some (Some data) \<Rightarrow>
          if conforms data then (Inr ''Json validation successful.'', w)
          else (Inl ValidationError, w))"

definition validate_json_string ::
  "(json \<Rightarrow> bool) \<Rightarrow> string \<Rightarrow> world \<Rightarrow> (error + string) \<times> world" where
  "validate_json_string conforms json_file_path =
     log_this ''validate_json_string'' (validate_json_string_body conforms json_file_path)"

section \<open>The pipeline\<close>

text \<open>The three insert statements of \<^verbatim>\<open>sql.yaml\<close>.\<close>

record sql_statements =
  insert_sessions :: insert_stmt
  insert_events :: insert_stmt
  insert_event_parents :: insert_stmt

text \<open>Sequencing two calls: an exception of the first skips the second.\<close>

definition and_then ::
  "(world \<Rightarrow> (error + 'a) \<times> world) \<Rightarrow> ('a \<Rightarrow> world \<Rightarrow> (error + 'b) \<times> world) \<Rightarrow>
   world \<Rightarrow> (error + 'b) \<times> world" where
  "and_then m k w =
     (let res = m w in case fst res of Inl e \<Rightarrow> (Inl e, snd res) | Inr v \<Rightarrow> k v (snd res))"

definition load_yaml :: "string \<Rightarrow> 'a \<Rightarrow> world \<Rightarrow> (error + 'a) \<times> world" where
  "load_yaml yaml_file_name parsed = log_this ''load_yaml'' (\<lambda>w. (Inr parsed, w))"

text \<open>
  \<^verbatim>\<open>connect_to_storage_account\<close> reads the configuration and the environment and builds
  the container client; its outcome (an exception for an invalid URL, or the container)
  is the parameter \<open>account\<close>.
\<close>

definition connect_to_storage_account ::
  "(error + blob list) \<Rightarrow> world \<Rightarrow> (error + blob list) \<times> world" where
  "connect_to_storage_account account =
     log_this ''connect_to_storage_account''
       (and_then (load_yaml ''config.yaml'' ()) (\<lambda>config w. (account, w)))"

definition run_job_body ::
  "sql_statements \<Rightarrow> (error + blob list) \<Rightarrow> (json \<Rightarrow> bool) \<Rightarrow> string \<Rightarrow> world \<Rightarrow>
   (error + string) \<times> world" where
  "run_job_body sql account conforms db_path =
     and_then (load_yaml ''sql.yaml'' sql) (\<lambda>sql_statements.
     and_then (connect_to_storage_account account) (\<lambda>container_client.
     and_then (download_latest_json container_client) (\<lambda>json_file_path.
     and_then (validate_json_string conforms json_file_path) (\<lambda>validation_result.
     and_then (insert_to_db json_file_path ''sessions''
                 (insert_sessions sql_statements) db_path) (\<lambda>r1.
     and_then (insert_to_db json_file_path ''events''
                 (insert_events sql_statements) db_path) (\<lambda>r2.
     and_then (insert_to_db json_file_path ''event_parents''
                 (insert_event_parents sql_statements) db_path) (\<lambda>r3 w.
       (Inr ''Job ran successfully.'', w))))))))"

definition run_job ::
  "sql_statements \<Rightarrow> (error + blob list) \<Rightarrow> (json \<Rightarrow> bool) \<Rightarrow> string \<Rightarrow> world \<Rightarrow>
   (error + string) \<times> world" where
  "run_job sql account conforms db_path =
     log_this ''run_job'' (run_job_body sql account conforms db_path)"

section \<open>Store initialization\<close>

text \<open>
  The statements of a schema script: \<^verbatim>\<open>CREATE TABLE [IF NOT EXISTS]\<close> and
  \<^verbatim>\<open>CREATE INDEX [IF NOT EXISTS] name ON table (columns)\<close>; the flag is the
  \<^verbatim>\<open>IF NOT EXISTS\<close> clause. Tables and indices share one namespace.
\<close>

datatype ddl =
    CreateTable bool string table
  | CreateIndex bool string string "string list"

fun exec_ddl :: "ddl \<Rightarrow> database \<Rightarrow> error + database" where
  "exec_ddl (CreateTable if_not_exists n t) db =
     (if List.member (map fst (tables db)) n
      then (if if_not_exists then Inr db else Inl OperationalError)
      else if List.member (map fst (indices db)) n then Inl OperationalError
      else Inr (db\<lparr>tables := tables db @ [(n, t\<lparr>rows := []\<rparr>)]\<rparr>))"
| "exec_ddl (CreateIndex if_not_exists n tn cs) db =
     (case map_of (tables db) tn of
        None \<Rightarrow> Inl OperationalError
      | Some t \<Rightarrow>
          if List.member (map fst (tables db)) n then Inl OperationalError
          else if List.member (map fst (indices db)) n
          then (if if_not_exists then Inr db else Inl OperationalError)
          else if \<not> list_all (\<lambda>c. List.member (cols t) c) cs then Inl OperationalError
          else Inr (db\<lparr>indices := indices db @ [(n, tn, cs)]\<rparr>))"

fun if_not_exists :: "ddl \<Rightarrow> bool" where
  "if_not_exists (CreateTable b n t) = b"
| "if_not_exists (CreateIndex b n tn cs) = b"

text \<open>A script stops at the first failing statement; the earlier ones stay applied.\<close>

fun exec_script :: "ddl list \<Rightarrow> database \<Rightarrow> (error + unit) \<times> database" where
  "exec_script [] db = (Inr (), db)"
| "exec_script (s # ss) db =
     (case exec_ddl s db of
        Inl e \<Rightarrow> (Inl e, db)
      | Inr db' \<Rightarrow> exec_script ss db')"

text \<open>
  Pragmas and scripts run outside a transaction, so what they change in the database
  file is published at once.
\<close>

datatype pragma =
    ForeignKeys bool
  | JournalMode jmode
  | Synchronous smode
  | TempStore tmode

fun execute_pragma :: "pragma \<Rightarrow> connection \<Rightarrow> world \<Rightarrow> connection \<times> world" where
  "execute_pragma (ForeignKeys b) con w = (con\<lparr>foreign_keys := b\<rparr>, w)"
| "execute_pragma (JournalMode m) con w =
     (let con' = con\<lparr>work := (work con)\<lparr>journal_mode := m\<rparr>\<rparr> in (con', commit con' w))"
| "execute_pragma (Synchronous m) con w = (con\<lparr>synchronous := m\<rparr>, w)"
| "execute_pragma (TempStore m) con w = (con\<lparr>temp_store := m\<rparr>, w)"

definition executescript ::
  "ddl list \<Rightarrow> connection \<Rightarrow> world \<Rightarrow> (error + unit) \<times> connection \<times> world" where
  "executescript script con w =
     (let res = exec_script script (work con);
          con' = con\<lparr>work := snd res\<rparr>
      in (fst res, con', commit con' w))"

text \<open>
  \<^verbatim>\<open>create_db\<close>; the script is \<^verbatim>\<open>sql_statements["schema_sql"]\<close> of \<^verbatim>\<open>sql.yaml\<close>.
  The connection is opened first, outside the \<^verbatim>\<open>try\<close> block; the call
  \<^verbatim>\<open>os.makedirs(os.path.dirname(db_path) or ".", exist_ok=True)\<close> comes after it.
\<close>

definition create_db :: "ddl list \<Rightarrow> string \<Rightarrow> bool \<Rightarrow> world \<Rightarrow> (error + unit) \<times> world" where
  "create_db schema_sql db_path ensure_wal w =
     (let cw = connect db_path w
      in case fst cw of
           Inl e \<Rightarrow> (Inl e, snd cw)
         | Inr con0 \<Rightarrow>
             (let cw0 = execute_pragma (ForeignKeys True) con0 (snd cw);
                  cw1 = (fst cw0,
                         makedirs (if dirname db_path = [] then ''.'' else dirname db_path)
                           (snd cw0));
                  cw2 = (if ensure_wal
                         then (let a = execute_pragma (JournalMode WAL) (fst cw1) (snd cw1);
                                   b = execute_pragma (Synchronous SyncNormal) (fst a) (snd a)
                               in execute_pragma (TempStore TempMemory) (fst b) (snd b))
                         else cw1);
                  res = executescript schema_sql (fst cw2) (snd cw2);
                  con = fst (snd res);
                  w3 = snd (snd res)
              in case fst res of
                   Inl e \<Rightarrow> (Inl e, close con w3)
                 | Inr u \<Rightarrow> (Inr (), close con (commit con w3))))"

section \<open>Deleting rows\<close>





section \<open>The resources of the repository that are not source files\<close>

text \<open>
  Modelled from the spec: the schema script \<^verbatim>\<open>schema_sql\<close> of \<^verbatim>\<open>sql.yaml\<close> is
  missing. The specification gives the layout
  \<^verbatim>\<open>sessions(id PK, start_ts, metadata)\<close>,
  \<^verbatim>\<open>events(id PK, ts, session_id FK->sessions.id, seq, kind, actor, payload, text, metrics)\<close>,
  \<^verbatim>\<open>event_parents(child_id FK->events.id, parent_id FK->events.id, PK(child_id, parent_id))\<close>,
  secondary indices on \<^verbatim>\<open>(session_id, ts)\<close> and \<^verbatim>\<open>(session_id, kind)\<close>, created
  idempotently, and a cascade on deleting the parent endpoint of an edge. What deleting
  a child endpoint does is left open there, so that action is the parameter
  \<open>child_action\<close>. The index names are those the tests look for.
\<close>

definition sessions_table :: table where
  "sessions_table =
     \<lparr>cols = [''id'', ''start_ts'', ''metadata''], pkey = [''id''], fkeys = [], rows = []\<rparr>"

text \<open>Modelled from the spec: the table \<^verbatim>\<open>events\<close> of the missing schema script.\<close>

definition events_table :: table where
  "events_table =
     \<lparr>cols = [''id'', ''ts'', ''session_id'', ''seq'', ''kind'', ''actor'', ''payload'',
              ''text'', ''metrics''],
      pkey = [''id''],
      fkeys = [\<lparr>fk_col = ''session_id'', fk_table = ''sessions'', fk_ref = ''id'',
                on_delete = NoAction\<rparr>],
      rows = []\<rparr>"

text \<open>
  Modelled from the spec: the table \<^verbatim>\<open>event_parents\<close> of the missing schema script,
  with the cascade on the parent endpoint.
\<close>

definition event_parents_table :: "fk_action \<Rightarrow> table" where
  "event_parents_table child_action =
     \<lparr>cols = [''child_id'', ''parent_id''],
      pkey = [''child_id'', ''parent_id''],
      fkeys = [\<lparr>fk_col = ''child_id'', fk_table = ''events'', fk_ref = ''id'',
                on_delete = child_action\<rparr>,
               \<lparr>fk_col = ''parent_id'', fk_table = ''events'', fk_ref = ''id'',
                on_delete = Cascade\<rparr>],
      rows = []\<rparr>"

text \<open>
  Modelled from the spec: the missing schema script itself, every statement with
  \<^verbatim>\<open>IF NOT EXISTS\<close>.
\<close>

definition schema_sql :: "fk_action \<Rightarrow> ddl list" where
  "schema_sql child_action =
     [CreateTable True ''sessions'' sessions_table,
      CreateTable True ''events'' events_table,
      CreateTable True ''event_parents'' (event_parents_table child_action),
      CreateIndex True ''events_session_ts'' ''events'' [''session_id'', ''ts''],
      CreateIndex True ''events_session_kind'' ''events'' [''session_id'', ''kind'']]"

text \<open>
  Modelled from the spec: the insert statements of \<^verbatim>\<open>sql.yaml\<close> are missing. Each
  inserts one row into its table; the order of the placeholders is the order in which
  \<^verbatim>\<open>insert_mock_data\<close> passes the values.
\<close>

definition sql_yaml :: sql_statements where
  "sql_yaml =
     \<lparr>insert_sessions = \<lparr>into = ''sessions'', columns = [''id'', ''start_ts'', ''metadata'']\<rparr>,
      insert_events = \<lparr>into = ''events'',
         columns = [''id'', ''ts'', ''session_id'', ''seq'', ''kind'', ''actor'', ''payload'',
                    ''text'', ''metrics'']\<rparr>,
      insert_event_parents = \<lparr>into = ''event_parents'', columns = [''child_id'', ''parent_id'']\<rparr>\<rparr>"

text \<open>
  Modelled from the spec: \<^verbatim>\<open>json/schema.json\<close> is missing. The contract checks each
  table's presence, each row's required fields, the field types and the enumerated
  event kinds.
\<close>

fun is_str :: "json \<Rightarrow> bool" where
  "is_str (JStr s) = True"
| "is_str JNull = False"
| "is_str (JBool b) = False"
| "is_str (JInt i) = False"
| "is_str (JArr xs) = False"
| "is_str (JObj kvs) = False"

fun is_int :: "json \<Rightarrow> bool" where
  "is_int (JInt i) = True"
| "is_int JNull = False"
| "is_int (JBool b) = False"
| "is_int (JStr s) = False"
| "is_int (JArr xs) = False"
| "is_int (JObj kvs) = False"

definition is_kind :: "json \<Rightarrow> bool" where
  "is_kind v = List.member [JStr ''user_prompt'', JStr ''assistant_out''] v"

definition has_fields :: "(string \<times> (json \<Rightarrow> bool)) list \<Rightarrow> json \<Rightarrow> bool" where
  "has_fields required row =
     (case row of
        JObj kvs \<Rightarrow>
          list_all (\<lambda>fc. case map_of kvs (fst fc) of None \<Rightarrow> False | Some v \<Rightarrow> snd fc v) required
      | _ \<Rightarrow> False)"

definition table_ok :: "json \<Rightarrow> string \<Rightarrow> (json \<Rightarrow> bool) \<Rightarrow> bool" where
  "table_ok doc tn row_ok =
     (case doc of
        JObj kvs \<Rightarrow> (case map_of kvs tn of Some (JArr rs) \<Rightarrow> list_all row_ok rs | _ \<Rightarrow> False)
      | _ \<Rightarrow> False)"

text \<open>
  Modelled from the spec: the contract of the missing \<^verbatim>\<open>json/schema.json\<close> for the
  three tables.
\<close>

definition snapshot_schema :: "json \<Rightarrow> bool" where
  "snapshot_schema doc =
     (table_ok doc ''sessions''
        (has_fields [(''id'', is_str), (''start_ts'', is_str), (''metadata'', is_str)]) \<and>
      table_ok doc ''events''
        (has_fields [(''id'', is_str), (''ts'', is_str), (''session_id'', is_str),
                     (''seq'', is_int), (''kind'', is_kind), (''actor'', is_str),
                     (''payload'', is_str), (''text'', is_str), (''metrics'', is_str)]) \<and>
      table_ok doc ''event_parents''
        (has_fields [(''child_id'', is_str), (''parent_id'', is_str)]))"

section \<open>Stores and runs used as examples\<close>

text \<open>The store that the schema script lays out, holding the given rows.\<close>

definition store_of ::
  "fk_action \<Rightarrow> sqlval list list \<Rightarrow> sqlval list list \<Rightarrow> sqlval list list \<Rightarrow> database" where
  "store_of child_action ss es ps =
     \<lparr>tables = [(''sessions'', sessions_table\<lparr>rows := ss\<rparr>),
                (''events'', events_table\<lparr>rows := es\<rparr>),
                (''event_parents'', (event_parents_table child_action)\<lparr>rows := ps\<rparr>)],
      indices = [(''events_session_ts'', ''events'', [''session_id'', ''ts'']),
                 (''events_session_kind'', ''events'', [''session_id'', ''kind''])],
      journal_mode = WAL\<rparr>"

definition world0 :: world where
  "world0 =
     \<lparr>stores = (\<lambda>p. empty_db), files = [], open_conns = 0, log_lines = [], dirs = []\<rparr>"

text \<open>A world whose store \<^verbatim>\<open>local.db\<close> is initialized and empty.\<close>

definition world1 :: world where
  "world1 = world0\<lparr>stores := (\<lambda>p. empty_db)(''local.db'' := store_of NoAction [] [] [])\<rparr>"

definition session_row :: "string \<Rightarrow> json" where
  "session_row sid =
     JObj [(''id'', JStr sid), (''start_ts'', JStr ''2024-01-01T00:00:00''),
           (''metadata'', JStr ''m'')]"

definition event_row :: "string \<Rightarrow> string \<Rightarrow> json" where
  "event_row eid sid =
     JObj [(''id'', JStr eid), (''ts'', JStr ''2024-01-01T00:01:00''),
           (''session_id'', JStr sid), (''seq'', JInt 1), (''kind'', JStr ''user_prompt''),
           (''actor'', JStr ''User''), (''payload'', JStr ''p''), (''text'', JStr ''hello''),
           (''metrics'', JStr ''m'')]"

definition edge_row :: "string \<Rightarrow> string \<Rightarrow> json" where
  "edge_row child parent = JObj [(''child_id'', JStr child), (''parent_id'', JStr parent)]"

definition snapshot :: "json list \<Rightarrow> json list \<Rightarrow> json list \<Rightarrow> json" where
  "snapshot ss es ps =
     JObj [(''sessions'', JArr ss), (''events'', JArr es), (''event_parents'', JArr ps)]"

text \<open>A snapshot that conforms to the contract and lists one lineage edge twice.\<close>

definition dup_edge_snapshot :: json where
  "dup_edge_snapshot =
     snapshot [session_row ''s1''] [event_row ''e1'' ''s1'', event_row ''e2'' ''s1'']
       [edge_row ''e2'' ''e1'', edge_row ''e2'' ''e1'']"

text \<open>A snapshot whose only event names a session that no table holds.\<close>

definition orphan_snapshot :: json where
  "orphan_snapshot = snapshot [] [event_row ''e1'' ''missing''] []"

definition backups :: "content \<Rightarrow> content \<Rightarrow> blob list" where
  "backups c1 c2 =
     [\<lparr>name = ''backup_20240101T000000'', creation_time = 1, blob_content = c1\<rparr>,
      \<lparr>name = ''backup_20240102T000000'', creation_time = 2, blob_content = c2\<rparr>]"

text \<open>The initialized world with one staged file.\<close>

definition staged :: "content \<Rightarrow> world" where
  "staged c = world1\<lparr>files := [(''staged.json'', c)]\<rparr>"

text \<open>
  The load stage as three units, one per table and in the order of the calls, each
  published on its own: the database that is left, and the first exception if one of
  the units fails.
\<close>

definition per_table_load ::
  "sql_statements \<Rightarrow> json \<Rightarrow> string \<Rightarrow> database \<Rightarrow> (error + unit) \<times> database" where
  "per_table_load sql doc p db0 =
     (case table_load doc ''sessions'' (insert_sessions sql) p db0 of
        Inl e \<Rightarrow> (Inl e, db0)
      | Inr db1 \<Rightarrow>
          (case table_load doc ''events'' (insert_events sql) p db1 of
             Inl e \<Rightarrow> (Inl e, db1)
           | Inr db2 \<Rightarrow>
               (case table_load doc ''event_parents'' (insert_event_parents sql) p db2 of
                  Inl e \<Rightarrow> (Inl e, db2)
                | Inr db3 \<Rightarrow> (Inr (), db3))))"

text \<open>The rows of every table, and their numbers, in the order of the tables.\<close>

definition table_rows :: "database \<Rightarrow> sqlval list list list" where
  "table_rows db = map (rows \<circ> snd) (tables db)"

definition row_counts :: "database \<Rightarrow> nat list" where
  "row_counts db = map (length \<circ> rows \<circ> snd) (tables db)"




text \<open>
  The store and the statement of \<^verbatim>\<open>test_insert_to_db\<close>, with two staged files: one
  whose row lists the field \<^verbatim>\<open>name\<close> before \<^verbatim>\<open>id\<close>, and one that gives the same
  values under exchanged field names.
\<close>

definition test_statement :: insert_stmt where
  "test_statement = \<lparr>into = ''test_table'', columns = [''id'', ''name'']\<rparr>"

definition test_world :: world where
  "test_world =
     \<lparr>stores = (\<lambda>p. empty_db)(''test.db'' :=
         \<lparr>tables = [(''test_table'',
             \<lparr>cols = [''id'', ''name''], pkey = [], fkeys = [], rows = []\<rparr>)],
          indices = [], journal_mode = RollbackJournal\<rparr>),
      files = [(''swapped.json'',
                Some (JObj [(''test_table'',
                  JArr [JObj [(''name'', JStr ''Alice''), (''id'', JInt 1)]])])),
               (''renamed.json'',
                Some (JObj [(''test_table'',
                  JArr [JObj [(''id'', JStr ''Alice''), (''name'', JInt 1)]])]))],
      open_conns = 0, log_lines = [], dirs = []\<rparr>"

text \<open>A container that holds no backup.\<close>

definition no_backups :: "blob list" where
  "no_backups = [\<lparr>name = ''notes.txt'', creation_time = 1, blob_content = None\<rparr>]"

section \<open>The load of one table\<close>

lemma can_open_frame:
  "can_open (w\<lparr>stores := s\<rparr>) p = can_open w p"
  "can_open (w\<lparr>files := f\<rparr>) p = can_open w p"
  "can_open (w\<lparr>open_conns := n\<rparr>) p = can_open w p"
  "can_open (w\<lparr>log_lines := l\<rparr>) p = can_open w p"
  by (simp_all add: can_open_def dir_exists_def)

lemma execute_con_path: "execute con st ps = Inr con' \<Longrightarrow> con_path con' = con_path con"
  by (auto simp: execute_def split: option.splits if_splits sum.splits)

lemma insert_rows_con_path: "con_path (snd (insert_rows con st rs)) = con_path con"
proof (induction rs arbitrary: con)
  case Nil
  then show ?case by simp
next
  case (Cons r rs)
  then show ?case
    by (auto simp: execute_con_path split: sum.splits)
qed

lemma insert_try_con_path: "con_path (snd (insert_try con f t st w)) = con_path con"
  by (simp add: insert_try_def insert_rows_con_path split: option.splits sum.splits)

text \<open>
  C9. One call of \<^verbatim>\<open>insert_to_db\<close>, whatever the file, the table name, the statement
  and the path: the connection it opens is closed again on every exit path (as many
  connections are open after the call as before), no file changes, no store other
  than the one at \<open>p\<close> changes, and when the call raises an exception the rollback
  leaves every store as it was.
\<close>

theorem insert_to_db_atomic_and_closes:
  "open_conns (snd (insert_to_db f t st p w)) = open_conns w \<and>
   files (snd (insert_to_db f t st p w)) = files w \<and>
   (\<forall>q. q \<noteq> p \<longrightarrow> stores (snd (insert_to_db f t st p w)) q = stores w q) \<and>
   (\<forall>e. fst (insert_to_db f t st p w) = Inl e \<longrightarrow>
        stores (snd (insert_to_db f t st p w)) = stores w)"
proof (cases "can_open w p")
  case True
  then show ?thesis
    by (simp add: insert_to_db_def log_this_def insert_to_db_body_def connect_def close_def
        commit_def rollback_def Let_def insert_try_con_path open_connection_def can_open_frame
        split: sum.splits)
next
  case False
  then show ?thesis
    by (simp add: insert_to_db_def log_this_def insert_to_db_body_def connect_def Let_def
        can_open_frame)
qed

text \<open>
  The second of two equal edges violates the primary key after the first was inserted;
  the call raises, nothing of it stays, and the connection is closed.
\<close>

theorem insert_to_db_atomic_and_closes_witness:
  "fst (insert_to_db ''staged.json'' ''event_parents'' (insert_event_parents sql_yaml)
          ''local.db'' (staged (Some dup_edge_snapshot))) = Inl IntegrityError \<and>
   stores (snd (insert_to_db ''staged.json'' ''event_parents'' (insert_event_parents sql_yaml)
          ''local.db'' (staged (Some dup_edge_snapshot)))) = stores (staged (Some dup_edge_snapshot)) \<and>
   open_conns (snd (insert_to_db ''staged.json'' ''event_parents'' (insert_event_parents sql_yaml)
          ''local.db'' (staged (Some dup_edge_snapshot)))) = 0"
proof -
  have raised: "fst (insert_to_db ''staged.json'' ''event_parents'' (insert_event_parents sql_yaml)
          ''local.db'' (staged (Some dup_edge_snapshot))) = Inl IntegrityError"
    by code_simp
  have closed: "open_conns (staged (Some dup_edge_snapshot)) = 0"
    by (simp add: staged_def world1_def world0_def)
  show ?thesis
    using raised closed
      insert_to_db_atomic_and_closes [of "''staged.json''" "''event_parents''"
        "insert_event_parents sql_yaml" "''local.db''" "staged (Some dup_edge_snapshot)"]
    by simp
qed

lemma insert_try_eq:
  "map_of (files w) f = Some (Some d) \<Longrightarrow>
   fst (insert_try (open_connection p db) f tn st w) =
     (case table_load d tn st p db of Inl e \<Rightarrow> Inl e | Inr db' \<Rightarrow> Inr ()) \<and>
   (\<forall>db'. table_load d tn st p db = Inr db' \<longrightarrow>
      work (snd (insert_try (open_connection p db) f tn st w)) = db')"
  by (simp add: insert_try_def table_load_def Let_def split: sum.splits)

lemma insert_to_db_closed:
  "\<not> can_open w p \<Longrightarrow>
   insert_to_db f tn st p w =
     (Inl OperationalError,
      w\<lparr>log_lines := log_lines w @ [Calling ''insert_to_db'',
                       Raised ''insert_to_db'' OperationalError]\<rparr>)"
  by (simp add: insert_to_db_def log_this_def insert_to_db_body_def connect_def Let_def
      can_open_frame)

lemma insert_to_db_eq:
  assumes "can_open w p"
  shows "insert_to_db f tn st p w =
     (case map_of (files w) f of
        None \<Rightarrow> (Inl FileNotFoundError,
                 w\<lparr>log_lines := log_lines w @ [Calling ''insert_to_db'',
                                  Raised ''insert_to_db'' FileNotFoundError]\<rparr>)
      | Some None \<Rightarrow> (Inl JSONDecodeError,
                 w\<lparr>log_lines := log_lines w @ [Calling ''insert_to_db'',
                                  Raised ''insert_to_db'' JSONDecodeError]\<rparr>)
      | Some (Some d) \<Rightarrow>
          (case table_load d tn st p (stores w p) of
             Inl e \<Rightarrow> (Inl e,
                 w\<lparr>log_lines := log_lines w @ [Calling ''insert_to_db'',
                                  Raised ''insert_to_db'' e]\<rparr>)
           | Inr db \<Rightarrow> (Inr (''Data inserted successfully to '' @ tn @ ''.''),
                 w\<lparr>stores := (stores w)(p := db),
                   log_lines := log_lines w @ [Calling ''insert_to_db'',
                                  Returned ''insert_to_db'']\<rparr>)))"
proof (cases "map_of (files w) f")
  case None
  with assms show ?thesis
    by (simp add: insert_to_db_def log_this_def insert_to_db_body_def insert_try_def Let_def
        connect_def close_def rollback_def can_open_frame)
next
  case (Some c)
  show ?thesis
  proof (cases c)
    case None
    with Some assms show ?thesis
      by (simp add: insert_to_db_def log_this_def insert_to_db_body_def insert_try_def Let_def
          connect_def close_def rollback_def can_open_frame)
  next
    case inner: (Some d)
    let ?w1 = "w\<lparr>log_lines := log_lines w @ [Calling ''insert_to_db''],
                 open_conns := Suc (open_conns w)\<rparr>"
    have f: "map_of (files ?w1) f = Some (Some d)" using Some inner by simp
    note t = insert_try_eq [OF f, of p "stores w p" tn st]
    show ?thesis
    proof (cases "table_load d tn st p (stores w p)")
      case (Inl e)
      with t Some inner assms show ?thesis
        by (simp add: insert_to_db_def log_this_def insert_to_db_body_def Let_def
            connect_def close_def rollback_def can_open_frame)
    next
      case (Inr db)
      with t Some inner assms show ?thesis
        by (simp add: insert_to_db_def log_this_def insert_to_db_body_def Let_def
            connect_def close_def commit_def insert_try_con_path can_open_frame)
           (simp add: open_connection_def)
    qed
  qed
qed

lemma insert_rows_values:
  "map (map snd) rs = map (map snd) rs' \<Longrightarrow>
   insert_rows con st (map JObj rs) = insert_rows con st (map JObj rs')"
proof (induction rs arbitrary: rs' con)
  case Nil
  then show ?case by simp
next
  case (Cons r rs)
  then obtain r' rs'' where "rs' = r' # rs''" by (cases rs') auto
  with Cons show ?case by (auto split: sum.splits)
qed

lemma table_load_values:
  assumes "dict_get d t (JArr []) = Inr (JArr (map JObj rs))"
    "dict_get d' t (JArr []) = Inr (JArr (map JObj rs'))"
    "map (map snd) rs = map (map snd) rs'"
  shows "table_load d t st p db = table_load d' t st p db"
  using assms(1,2) insert_rows_values [OF assms(3)]
  by (simp add: table_load_def)

text \<open>
  C10. The parameters of each row are bound by position: the tuple handed to the
  statement is the list of the row object's values in the order of its fields, the
  field names play no part. Hence two staged documents whose rows carry the same
  values in the same order, under whatever field names, make \<^verbatim>\<open>insert_to_db\<close> behave
  identically (same result, same store), and a row whose fields are ordered
  differently from the statement's placeholders lands in the wrong columns.
\<close>

theorem insert_to_db_binds_by_position:
  "insert_rows con st (JObj kvs # rest) =
     (case execute con st (map snd kvs) of
        Inl e \<Rightarrow> (Inl e, con)
      | Inr con' \<Rightarrow> insert_rows con' st rest) \<and>
   (map_of (files w) f = Some (Some d) \<and> map_of (files w) f' = Some (Some d') \<and>
    dict_get d t (JArr []) = Inr (JArr (map JObj rs)) \<and>
    dict_get d' t (JArr []) = Inr (JArr (map JObj rs')) \<and>
    map (map snd) rs = map (map snd) rs' \<longrightarrow>
    insert_to_db f t st' p w = insert_to_db f' t st' p w)"
proof (intro conjI impI)
  show "insert_rows con st (JObj kvs # rest) =
     (case execute con st (map snd kvs) of
        Inl e \<Rightarrow> (Inl e, con)
      | Inr con' \<Rightarrow> insert_rows con' st rest)"
    by simp
next
  assume a: "map_of (files w) f = Some (Some d) \<and> map_of (files w) f' = Some (Some d') \<and>
    dict_get d t (JArr []) = Inr (JArr (map JObj rs)) \<and>
    dict_get d' t (JArr []) = Inr (JArr (map JObj rs')) \<and>
    map (map snd) rs = map (map snd) rs'"
  then have "table_load d t st' p (stores w p) = table_load d' t st' p (stores w p)"
    using table_load_values [of d t rs d' rs' st' p "stores w p"] by simp
  with a show "insert_to_db f t st' p w = insert_to_db f' t st' p w"
    by (cases "can_open w p") (simp_all add: insert_to_db_eq insert_to_db_closed)
qed

text \<open>
  The row \<^verbatim>\<open>{"name": "Alice", "id": 1}\<close> under the statement
  \<^verbatim>\<open>INSERT INTO test_table (id, name) VALUES (?, ?)\<close>: the call succeeds, the column
  \<^verbatim>\<open>id\<close> receives the text and the column \<^verbatim>\<open>name\<close> the number, exactly as for the
  file with the exchanged field names.
\<close>

theorem insert_to_db_binds_by_position_witness:
  "insert_to_db ''swapped.json'' ''test_table'' test_statement ''test.db'' test_world =
   insert_to_db ''renamed.json'' ''test_table'' test_statement ''test.db'' test_world \<and>
   fst (insert_to_db ''swapped.json'' ''test_table'' test_statement ''test.db'' test_world) =
     Inr ''Data inserted successfully to test_table.'' \<and>
   table_rows (stores (snd (insert_to_db ''swapped.json'' ''test_table'' test_statement
        ''test.db'' test_world)) ''test.db'') = [[[SText ''Alice'', SInt 1]]]"
proof -
  have same: "insert_to_db ''swapped.json'' ''test_table'' test_statement ''test.db'' test_world =
      insert_to_db ''renamed.json'' ''test_table'' test_statement ''test.db'' test_world"
    using insert_to_db_binds_by_position [of _ _ "[]" "[]" test_world "''swapped.json''"
        "JObj [(''test_table'', JArr [JObj [(''name'', JStr ''Alice''), (''id'', JInt 1)]])]"
        "''renamed.json''"
        "JObj [(''test_table'', JArr [JObj [(''id'', JStr ''Alice''), (''name'', JInt 1)]])]"
        "''test_table''" "[[(''name'', JStr ''Alice''), (''id'', JInt 1)]]"
        "[[(''id'', JStr ''Alice''), (''name'', JInt 1)]]" test_statement "''test.db''"]
    by (simp add: test_world_def)
  have ok: "fst (insert_to_db ''swapped.json'' ''test_table'' test_statement ''test.db'' test_world) =
     Inr ''Data inserted successfully to test_table.''"
    by code_simp
  have stored: "table_rows (stores (snd (insert_to_db ''swapped.json'' ''test_table''
        test_statement ''test.db'' test_world)) ''test.db'') = [[[SText ''Alice'', SInt 1]]]"
    by code_simp
  from same ok stored show ?thesis by simp
qed

section \<open>Locating the latest snapshot\<close>

lemma download_latest_json_eq:
  "download_latest_json c w =
     (case latest_blob c of
        None \<Rightarrow> (Inl AttributeError,
                 w\<lparr>log_lines := log_lines w @ [Calling ''download_latest_json'',
                                  Raised ''download_latest_json'' AttributeError]\<rparr>)
      | Some b \<Rightarrow>
          (case find (\<lambda>b'. name b' = name b) c of
             None \<Rightarrow> (Inl ResourceNotFoundError,
                 w\<lparr>log_lines := log_lines w @ [Calling ''download_latest_json'',
                                  Raised ''download_latest_json'' ResourceNotFoundError]\<rparr>)
           | Some d \<Rightarrow> (Inr (fresh_path (files w)),
                 w\<lparr>files := (fresh_path (files w), blob_content d) # files w,
                   log_lines := log_lines w @ [Calling ''download_latest_json'',
                                  Returned ''download_latest_json'']\<rparr>)))"
  by (simp add: download_latest_json_def download_latest_json_body_def log_this_def Let_def
      split: option.splits)

lemma max_by_None: "max_by key xs = None \<longleftrightarrow> xs = []"
  by (cases xs) simp_all

lemma foldl_best_mem:
  "foldl (\<lambda>best y. if key best < key y then y else best) x xs \<in> set (x # xs)"
proof (induction xs arbitrary: x)
  case Nil
  then show ?case by simp
next
  case (Cons y ys)
  show ?case using Cons.IH [of "if key x < key y then y else x"] by auto
qed

lemma foldl_best_ge_start:
  "(key :: 'a \<Rightarrow> int) x \<le> key (foldl (\<lambda>best y. if key best < key y then y else best) x xs)"
proof (induction xs arbitrary: x)
  case Nil
  then show ?case by simp
next
  case (Cons y ys)
  show ?case using Cons.IH [of "if key x < key y then y else x"] by (auto split: if_splits)
qed

lemma foldl_best_ge:
  "z \<in> set (x # xs) \<Longrightarrow>
   (key :: 'a \<Rightarrow> int) z \<le> key (foldl (\<lambda>best y. if key best < key y then y else best) x xs)"
proof (induction xs arbitrary: x)
  case Nil
  then show ?case by simp
next
  case (Cons y ys)
  have s: "key (if key x < key y then y else x)
        \<le> key (foldl (\<lambda>best y. if key best < key y then y else best) (if key x < key y then y else x) ys)"
    by (rule foldl_best_ge_start)
  from Cons.prems consider "z = x" | "z = y" | "z \<in> set ys" by auto
  then show ?case
  proof cases
    case 1
    then show ?thesis using s by (auto split: if_splits)
  next
    case 2
    then show ?thesis using s by (auto split: if_splits)
  next
    case 3
    then show ?thesis using Cons.IH [of "if key x < key y then y else x"] by simp
  qed
qed

lemma max_by_Some:
  "xs \<noteq> [] \<Longrightarrow> \<exists>b. max_by key xs = Some b \<and> b \<in> set xs \<and> (\<forall>z \<in> set xs. key z \<le> key b)"
proof (cases xs)
  case Nil
  assume "xs \<noteq> []"
  with Nil show ?thesis by simp
next
  case (Cons x ys)
  show ?thesis
    unfolding Cons using foldl_best_mem [of key x ys] foldl_best_ge [of _ x ys key]
    by (simp del: set_simps)
qed

lemma max_by_unique:
  assumes "set xs = set ys" and "inj_on key (set xs)"
  shows "max_by key xs = max_by key ys"
proof (cases "xs = []")
  case True
  with assms show ?thesis by simp
next
  case False
  with assms have ny: "ys \<noteq> []" by auto
  from max_by_Some [OF False, of key] obtain a where
    a: "max_by key xs = Some a" "a \<in> set xs" "\<forall>z \<in> set xs. key z \<le> key a" by blast
  from max_by_Some [OF ny, of key] obtain b where
    b: "max_by key ys = Some b" "b \<in> set ys" "\<forall>z \<in> set ys. key z \<le> key b" by blast
  from a b assms(1) have "key a = key b" by (metis order_antisym)
  with assms a b have "a = b" by (auto dest: inj_onD)
  with a b show ?thesis by simp
qed

lemma latest_blob_perm:
  assumes "mset c' = mset c" and "distinct (map creation_time (list_blobs c ''backup_''))"
  shows "latest_blob c' = latest_blob c"
proof -
  have "mset (list_blobs c' ''backup_'') = mset (list_blobs c ''backup_'')"
    using assms(1) by (simp add: list_blobs_def)
  then have "set (list_blobs c' ''backup_'') = set (list_blobs c ''backup_'')"
    by (rule mset_eq_setD)
  moreover have "inj_on creation_time (set (list_blobs c ''backup_''))"
    using assms(2) by (simp add: distinct_map)
  ultimately show ?thesis
    unfolding latest_blob_def by (metis max_by_unique)
qed

text \<open>
  C7. Among the objects whose name starts with \<^verbatim>\<open>backup_\<close>, when there is one, the
  locator returns one of them whose creation time no other exceeds. The choice is a
  function of the listing, and when the creation times differ from one another it
  does not depend on the order of the listing. For the two objects
  \<^verbatim>\<open>backup_20240101T000000\<close> and \<^verbatim>\<open>backup_20240102T000000\<close>, the second created
  after the first, it returns the second in either order.
\<close>

theorem latest_blob_greatest:
  "(list_blobs c ''backup_'' \<noteq> [] \<longrightarrow>
      (\<exists>b. latest_blob c = Some b \<and> b \<in> set (list_blobs c ''backup_'') \<and>
           (\<forall>b' \<in> set (list_blobs c ''backup_''). creation_time b' \<le> creation_time b))) \<and>
   (mset c' = mset c \<and> distinct (map creation_time (list_blobs c ''backup_'')) \<longrightarrow>
      latest_blob c' = latest_blob c) \<and>
   (t1 < t2 \<longrightarrow>
      latest_blob [\<lparr>name = ''backup_20240101T000000'', creation_time = t1, blob_content = c1\<rparr>,
                   \<lparr>name = ''backup_20240102T000000'', creation_time = t2, blob_content = c2\<rparr>]
        = Some \<lparr>name = ''backup_20240102T000000'', creation_time = t2, blob_content = c2\<rparr> \<and>
      latest_blob [\<lparr>name = ''backup_20240102T000000'', creation_time = t2, blob_content = c2\<rparr>,
                   \<lparr>name = ''backup_20240101T000000'', creation_time = t1, blob_content = c1\<rparr>]
        = Some \<lparr>name = ''backup_20240102T000000'', creation_time = t2, blob_content = c2\<rparr>)"
proof (intro conjI impI)
  assume "list_blobs c ''backup_'' \<noteq> []"
  then show "\<exists>b. latest_blob c = Some b \<and> b \<in> set (list_blobs c ''backup_'') \<and>
           (\<forall>b' \<in> set (list_blobs c ''backup_''). creation_time b' \<le> creation_time b)"
    unfolding latest_blob_def by (rule max_by_Some)
next
  assume "mset c' = mset c \<and> distinct (map creation_time (list_blobs c ''backup_''))"
  then have "mset c' = mset c" and "distinct (map creation_time (list_blobs c ''backup_''))"
    by simp_all
  then show "latest_blob c' = latest_blob c"
    by (rule latest_blob_perm)
next
  assume "t1 < t2"
  then show
     "latest_blob [\<lparr>name = ''backup_20240101T000000'', creation_time = t1, blob_content = c1\<rparr>,
                   \<lparr>name = ''backup_20240102T000000'', creation_time = t2, blob_content = c2\<rparr>]
        = Some \<lparr>name = ''backup_20240102T000000'', creation_time = t2, blob_content = c2\<rparr>"
    by (simp add: latest_blob_def list_blobs_def starts_with_def)
next
  assume "t1 < t2"
  then show
     "latest_blob [\<lparr>name = ''backup_20240102T000000'', creation_time = t2, blob_content = c2\<rparr>,
                   \<lparr>name = ''backup_20240101T000000'', creation_time = t1, blob_content = c1\<rparr>]
        = Some \<lparr>name = ''backup_20240102T000000'', creation_time = t2, blob_content = c2\<rparr>"
    by (simp add: latest_blob_def list_blobs_def starts_with_def)
qed

theorem latest_blob_greatest_witness:
  "list_blobs (backups None None) ''backup_'' \<noteq> [] \<and>
   mset (rev (backups None None)) = mset (backups None None) \<and>
   distinct (map creation_time (list_blobs (backups None None) ''backup_'')) \<and>
   (1 :: int) < 2 \<and>
   latest_blob (rev (backups None None)) = latest_blob (backups None None) \<and>
   latest_blob (backups None None) =
     Some \<lparr>name = ''backup_20240102T000000'', creation_time = 2, blob_content = None\<rparr> \<and>
   (\<exists>b. latest_blob (backups None None) = Some b \<and>
        b \<in> set (list_blobs (backups None None) ''backup_'') \<and>
        (\<forall>b' \<in> set (list_blobs (backups None None) ''backup_'').
            creation_time b' \<le> creation_time b))"
proof -
  have h1: "list_blobs (backups None None) ''backup_'' \<noteq> []"
    by (simp add: backups_def list_blobs_def starts_with_def)
  have h2: "mset (rev (backups None None)) = mset (backups None None)"
    by simp
  have h3: "distinct (map creation_time (list_blobs (backups None None) ''backup_''))"
    by (simp add: backups_def list_blobs_def starts_with_def)
  have h4: "(1 :: int) < 2" by simp
  note inst = latest_blob_greatest [of "backups None None" "rev (backups None None)" 1 2 None None]
  note i1 = conjunct1 [OF inst]
  note i2 = conjunct1 [OF conjunct2 [OF inst]]
  note i3 = conjunct2 [OF conjunct2 [OF inst]]
  have p1: "\<exists>b. latest_blob (backups None None) = Some b \<and>
        b \<in> set (list_blobs (backups None None) ''backup_'') \<and>
        (\<forall>b' \<in> set (list_blobs (backups None None) ''backup_'').
            creation_time b' \<le> creation_time b)"
    by (rule mp [OF i1 h1])
  have p2: "latest_blob (rev (backups None None)) = latest_blob (backups None None)"
    by (rule mp [OF i2 conjI [OF h2 h3]])
  have p3: "latest_blob (backups None None) =
     Some \<lparr>name = ''backup_20240102T000000'', creation_time = 2, blob_content = None\<rparr>"
    unfolding backups_def by (rule conjunct1 [OF mp [OF i3 h4]])
  show ?thesis
    by (intro conjI h1 h2 h3 h4 p1 p2 p3)
qed

text \<open>
  C4, as the code has it. When no object's name starts with \<^verbatim>\<open>backup_\<close>,
  \<^verbatim>\<open>max\<close> returns \<^verbatim>\<open>None\<close> and reading its \<^verbatim>\<open>name\<close> raises: the locator fails with
  \<open>AttributeError\<close>, before anything is downloaded, and leaves files and stores as they
  were.
\<close>

theorem download_latest_json_no_backup:
  "list_blobs c ''backup_'' = [] \<Longrightarrow>
   fst (download_latest_json c w) = Inl AttributeError \<and>
   files (snd (download_latest_json c w)) = files w \<and>
   stores (snd (download_latest_json c w)) = stores w"
  by (simp add: download_latest_json_eq latest_blob_def)

theorem download_latest_json_no_backup_witness:
  "list_blobs no_backups ''backup_'' = [] \<and>
   fst (download_latest_json no_backups world0) = Inl AttributeError \<and>
   files (snd (download_latest_json no_backups world0)) = [] \<and>
   stores (snd (download_latest_json no_backups world0)) = (\<lambda>p. empty_db)"
proof -
  have h: "list_blobs no_backups ''backup_'' = []"
    by (simp add: no_backups_def list_blobs_def starts_with_def)
  from download_latest_json_no_backup [OF h, of world0] h show ?thesis
    by (simp add: world0_def)
qed

text \<open>The exception is not the \<open>NotFoundError\<close> of the specification.\<close>

theorem download_latest_json_not_found_counterexample:
  "list_blobs no_backups ''backup_'' = [] \<and>
   fst (download_latest_json no_backups world0) \<noteq> Inl NotFoundError"
  by code_simp

section \<open>The pipeline, stage by stage\<close>

lemma validate_json_string_eq:
  "validate_json_string conforms f w =
     (case map_of (files w) f of
        None \<Rightarrow> (Inl FileNotFoundError,
                 w\<lparr>log_lines := log_lines w @ [Calling ''validate_json_string'',
                                  Raised ''validate_json_string'' FileNotFoundError]\<rparr>)
      | Some None \<Rightarrow> (Inl JSONDecodeError,
                 w\<lparr>log_lines := log_lines w @ [Calling ''validate_json_string'',
                                  Raised ''validate_json_string'' JSONDecodeError]\<rparr>)
      | Some (Some d) \<Rightarrow>
          if conforms d
          then (Inr ''Json validation successful.'',
                 w\<lparr>log_lines := log_lines w @ [Calling ''validate_json_string'',
                                  Returned ''validate_json_string'']\<rparr>)
          else (Inl ValidationError,
                 w\<lparr>log_lines := log_lines w @ [Calling ''validate_json_string'',
                                  Raised ''validate_json_string'' ValidationError]\<rparr>))"
  by (simp add: validate_json_string_def validate_json_string_body_def log_this_def Let_def
      split: option.splits)

lemma load_yaml_eq:
  "load_yaml n v w =
     (Inr v, w\<lparr>log_lines := log_lines w @ [Calling ''load_yaml'', Returned ''load_yaml'']\<rparr>)"
  by (simp add: load_yaml_def log_this_def Let_def)

lemma connect_to_storage_account_eq:
  "connect_to_storage_account (Inr c) w =
     (Inr c, w\<lparr>log_lines := log_lines w @ [Calling ''connect_to_storage_account'',
         Calling ''load_yaml'', Returned ''load_yaml'',
         Returned ''connect_to_storage_account'']\<rparr>)"
  by (simp add: connect_to_storage_account_def log_this_def and_then_def load_yaml_eq Let_def)

lemma and_then_case:
  "and_then m k w = (case m w of (Inl e, w') \<Rightarrow> (Inl e, w') | (Inr v, w') \<Rightarrow> k v w')"
  by (simp add: and_then_def Let_def split: prod.splits sum.splits)

lemma log_this_case:
  "log_this n body w =
     (case body (w\<lparr>log_lines := log_lines w @ [Calling n]\<rparr>) of
        (Inl e, w') \<Rightarrow> (Inl e, w'\<lparr>log_lines := log_lines w' @ [Raised n e]\<rparr>)
      | (Inr v, w') \<Rightarrow> (Inr v, w'\<lparr>log_lines := log_lines w' @ [Returned n]\<rparr>))"
  by (simp add: log_this_def Let_def split: prod.splits sum.splits)

text \<open>The pipeline up to the staged file.\<close>

lemma run_job_body_fetch:
  assumes "latest_blob c = Some b" "find (\<lambda>b'. name b' = name b) c = Some d"
  shows "run_job_body sql (Inr c) conforms p w =
     and_then (validate_json_string conforms (fresh_path (files w))) (\<lambda>validation_result.
     and_then (insert_to_db (fresh_path (files w)) ''sessions'' (insert_sessions sql) p) (\<lambda>r1.
     and_then (insert_to_db (fresh_path (files w)) ''events'' (insert_events sql) p) (\<lambda>r2.
     and_then (insert_to_db (fresh_path (files w)) ''event_parents''
                 (insert_event_parents sql) p) (\<lambda>r3 w.
       (Inr ''Job ran successfully.'', w)))))
       (w\<lparr>files := (fresh_path (files w), blob_content d) # files w,
          log_lines := log_lines w @
            [Calling ''load_yaml'', Returned ''load_yaml'',
             Calling ''connect_to_storage_account'', Calling ''load_yaml'', Returned ''load_yaml'',
             Returned ''connect_to_storage_account'',
             Calling ''download_latest_json'', Returned ''download_latest_json'']\<rparr>)"
  using assms
  by (simp add: run_job_body_def and_then_case [of "load_yaml _ _"]
      and_then_case [of "connect_to_storage_account _"]
      and_then_case [of "download_latest_json _"]
      load_yaml_eq connect_to_storage_account_eq download_latest_json_eq)

lemma and_then_files:
  assumes "\<And>w. files (snd (m w)) = files w" "\<And>v w. files (snd (k v w)) = files w"
  shows "files (snd (and_then m k w)) = files w"
  using assms by (simp add: and_then_def Let_def split: sum.splits)

lemma insert_to_db_files: "files (snd (insert_to_db f t st p w)) = files w"
  by (cases "can_open w p")
     (simp_all add: insert_to_db_eq insert_to_db_closed split: option.splits sum.splits)

lemma validate_json_string_files: "files (snd (validate_json_string conforms f w)) = files w"
  by (simp add: validate_json_string_eq split: option.splits)

lemma log_this_files: "files (snd (log_this n body w)) = files (snd (body (w\<lparr>log_lines := log_lines w @ [Calling n]\<rparr>)))"
  by (simp add: log_this_def Let_def)

lemma length_le_longest:
  "(k, v) \<in> set fs \<Longrightarrow> length k \<le> foldr max (map (\<lambda>kv. length (fst kv)) fs) 0"
  by (induction fs) (auto intro: max.coboundedI2)

lemma fresh_path_fresh: "map_of fs (fresh_path fs) = None"
proof -
  have "fresh_path fs \<notin> fst ` set fs"
  proof
    assume "fresh_path fs \<in> fst ` set fs"
    then obtain v where "(fresh_path fs, v) \<in> set fs" by auto
    from length_le_longest [OF this] show False
      by (simp add: fresh_path_def)
  qed
  then show ?thesis by (simp add: map_of_eq_None_iff)
qed

lemma loads_closed:
  assumes "\<not> can_open w p"
  shows "fst (and_then (insert_to_db f ''sessions'' (insert_sessions sql) p) (\<lambda>r1.
          and_then (insert_to_db f ''events'' (insert_events sql) p) (\<lambda>r2.
          and_then (insert_to_db f ''event_parents'' (insert_event_parents sql) p) (\<lambda>r3 w.
            (Inr ''Job ran successfully.'', w)))) w) = Inl OperationalError \<and>
         stores (snd (and_then (insert_to_db f ''sessions'' (insert_sessions sql) p) (\<lambda>r1.
          and_then (insert_to_db f ''events'' (insert_events sql) p) (\<lambda>r2.
          and_then (insert_to_db f ''event_parents'' (insert_event_parents sql) p) (\<lambda>r3 w.
            (Inr ''Job ran successfully.'', w)))) w)) = stores w"
  using assms by (simp add: and_then_case insert_to_db_closed)

lemma loads_eq:
  assumes "map_of (files w) f = Some (Some doc)" and op: "can_open w p"
  shows "fst (and_then (insert_to_db f ''sessions'' (insert_sessions sql) p) (\<lambda>r1.
          and_then (insert_to_db f ''events'' (insert_events sql) p) (\<lambda>r2.
          and_then (insert_to_db f ''event_parents'' (insert_event_parents sql) p) (\<lambda>r3 w.
            (Inr ''Job ran successfully.'', w)))) w) =
           (case fst (per_table_load sql doc p (stores w p)) of
              Inl e \<Rightarrow> Inl e | Inr u \<Rightarrow> Inr ''Job ran successfully.'') \<and>
         stores (snd (and_then (insert_to_db f ''sessions'' (insert_sessions sql) p) (\<lambda>r1.
          and_then (insert_to_db f ''events'' (insert_events sql) p) (\<lambda>r2.
          and_then (insert_to_db f ''event_parents'' (insert_event_parents sql) p) (\<lambda>r3 w.
            (Inr ''Job ran successfully.'', w)))) w)) =
           (stores w)(p := snd (per_table_load sql doc p (stores w p)))"
proof (cases "table_load doc ''sessions'' (insert_sessions sql) p (stores w p)")
  case (Inl e)
  with assms show ?thesis
    by (simp add: and_then_case insert_to_db_eq op can_open_frame per_table_load_def)
next
  case s: (Inr db1)
  show ?thesis
  proof (cases "table_load doc ''events'' (insert_events sql) p db1")
    case (Inl e)
    with assms s show ?thesis
      by (simp add: and_then_case insert_to_db_eq op can_open_frame per_table_load_def)
  next
    case e: (Inr db2)
    show ?thesis
    proof (cases "table_load doc ''event_parents'' (insert_event_parents sql) p db2")
      case (Inl e')
      with assms s e show ?thesis
        by (simp add: and_then_case insert_to_db_eq op can_open_frame per_table_load_def)
    next
      case (Inr db3)
      with assms s e show ?thesis
        by (simp add: and_then_case insert_to_db_eq op can_open_frame per_table_load_def)
    qed
  qed
qed

section \<open>Validation gates the load\<close>

text \<open>
  C5. When validation of the staged snapshot fails (the staged bytes do not decode, or
  the document does not conform to the schema), the run ends with the validator's
  exception, every store is as before the run, no connection was opened, and the log
  of the run holds no call of \<^verbatim>\<open>insert_to_db\<close>: the last stage entered is
  \<^verbatim>\<open>validate_json_string\<close>.
\<close>

theorem run_job_validation_gates_load:
  assumes "latest_blob c = Some b" "find (\<lambda>b'. name b' = name b) c = Some d"
    "case blob_content d of None \<Rightarrow> True | Some doc \<Rightarrow> \<not> conforms doc"
  shows "fst (run_job sql (Inr c) conforms p w) =
           Inl (case blob_content d of None \<Rightarrow> JSONDecodeError | Some doc \<Rightarrow> ValidationError) \<and>
         stores (snd (run_job sql (Inr c) conforms p w)) = stores w \<and>
         open_conns (snd (run_job sql (Inr c) conforms p w)) = open_conns w \<and>
         log_lines (snd (run_job sql (Inr c) conforms p w)) = log_lines w @
           [Calling ''run_job'', Calling ''load_yaml'', Returned ''load_yaml'',
            Calling ''connect_to_storage_account'', Calling ''load_yaml'', Returned ''load_yaml'',
            Returned ''connect_to_storage_account'',
            Calling ''download_latest_json'', Returned ''download_latest_json'',
            Calling ''validate_json_string'',
            Raised ''validate_json_string''
              (case blob_content d of None \<Rightarrow> JSONDecodeError | Some doc \<Rightarrow> ValidationError),
            Raised ''run_job''
              (case blob_content d of None \<Rightarrow> JSONDecodeError | Some doc \<Rightarrow> ValidationError)]"
proof (cases "blob_content d")
  case None
  show ?thesis
    unfolding run_job_def log_this_case
      run_job_body_fetch [OF assms(1,2)]
      and_then_case [of "validate_json_string _ _"]
    by (simp add: validate_json_string_eq None)
next
  case (Some doc)
  with assms(3) have "\<not> conforms doc" by simp
  then show ?thesis
    unfolding run_job_def log_this_case
      run_job_body_fetch [OF assms(1,2)]
      and_then_case [of "validate_json_string _ _"]
    by (simp add: validate_json_string_eq Some)
qed

text \<open>A run on a populated store whose latest backup is the JSON value \<^verbatim>\<open>null\<close>.\<close>

theorem run_job_validation_gates_load_witness:
  "latest_blob (backups None (Some JNull)) =
     Some \<lparr>name = ''backup_20240102T000000'', creation_time = 2, blob_content = Some JNull\<rparr> \<and>
   \<not> snapshot_schema JNull \<and>
   fst (run_job sql_yaml (Inr (backups None (Some JNull))) snapshot_schema ''local.db'' world1)
     = Inl ValidationError \<and>
   stores (snd (run_job sql_yaml (Inr (backups None (Some JNull))) snapshot_schema
     ''local.db'' world1)) = stores world1 \<and>
   open_conns (snd (run_job sql_yaml (Inr (backups None (Some JNull))) snapshot_schema
     ''local.db'' world1)) = 0 \<and>
   log_lines (snd (run_job sql_yaml (Inr (backups None (Some JNull))) snapshot_schema
     ''local.db'' world1)) =
      [Calling ''run_job'', Calling ''load_yaml'', Returned ''load_yaml'',
       Calling ''connect_to_storage_account'', Calling ''load_yaml'', Returned ''load_yaml'',
       Returned ''connect_to_storage_account'',
       Calling ''download_latest_json'', Returned ''download_latest_json'',
       Calling ''validate_json_string'', Raised ''validate_json_string'' ValidationError,
       Raised ''run_job'' ValidationError]"
proof -
  let ?b = "\<lparr>name = ''backup_20240102T000000'', creation_time = 2, blob_content = Some JNull\<rparr>"
  have h1: "latest_blob (backups None (Some JNull)) = Some ?b"
    by (simp add: backups_def latest_blob_def list_blobs_def starts_with_def)
  have h2: "find (\<lambda>b'. name b' = name ?b) (backups None (Some JNull)) = Some ?b"
    by (simp add: backups_def)
  have h3: "\<not> snapshot_schema JNull"
    by (simp add: snapshot_schema_def table_ok_def)
  have h4: "case blob_content ?b of None \<Rightarrow> True | Some doc \<Rightarrow> \<not> snapshot_schema doc"
    using h3 by simp
  have w: "open_conns world1 = 0" "log_lines world1 = []"
    by (simp_all add: world1_def world0_def)
  from run_job_validation_gates_load [OF h1 h2 h4, of sql_yaml "''local.db''" world1] h1 h3 w
  show ?thesis by simp
qed

section \<open>The staged file\<close>

text \<open>
  C3, as the code has it. The staged file is created with \<^verbatim>\<open>delete=False\<close> under a
  name that no file had, and no stage of the pipeline removes it: whenever the fetch
  succeeds, after the run the files are those of before together with the staged
  file and its fetched bytes, whether validation and load succeed or raise.
\<close>

theorem run_job_keeps_staged_file:
  assumes "latest_blob c = Some b" "find (\<lambda>b'. name b' = name b) c = Some d"
  shows "map_of (files w) (fresh_path (files w)) = None \<and>
         files (snd (run_job sql (Inr c) conforms p w)) =
           (fresh_path (files w), blob_content d) # files w"
  unfolding run_job_def log_this_files
  by (simp add: run_job_body_fetch [OF assms] and_then_files insert_to_db_files
      validate_json_string_files fresh_path_fresh)

text \<open>A run that fails in the load stage: the staged snapshot is still there.\<close>

theorem run_job_keeps_staged_file_witness:
  "latest_blob (backups None (Some dup_edge_snapshot)) =
     Some \<lparr>name = ''backup_20240102T000000'', creation_time = 2,
           blob_content = Some dup_edge_snapshot\<rparr> \<and>
   fst (run_job sql_yaml (Inr (backups None (Some dup_edge_snapshot))) snapshot_schema
     ''local.db'' world1) = Inl IntegrityError \<and>
   files (snd (run_job sql_yaml (Inr (backups None (Some dup_edge_snapshot))) snapshot_schema
     ''local.db'' world1)) = [(''t'', Some dup_edge_snapshot)]"
proof -
  let ?b = "\<lparr>name = ''backup_20240102T000000'', creation_time = 2,
             blob_content = Some dup_edge_snapshot\<rparr>"
  have h1: "latest_blob (backups None (Some dup_edge_snapshot)) = Some ?b"
    by (simp add: backups_def latest_blob_def list_blobs_def starts_with_def)
  have h2: "find (\<lambda>b'. name b' = name ?b) (backups None (Some dup_edge_snapshot)) = Some ?b"
    by (simp add: backups_def)
  have r: "fst (run_job sql_yaml (Inr (backups None (Some dup_edge_snapshot))) snapshot_schema
     ''local.db'' world1) = Inl IntegrityError"
    by code_simp
  have w: "files world1 = []"
    by (simp add: world1_def world0_def)
  from run_job_keeps_staged_file [OF h1 h2, of world1 sql_yaml snapshot_schema "''local.db''"]
    h1 r w
  show ?thesis by (simp add: fresh_path_def)
qed

text \<open>
  A run whose validation fails: no file existed before, and the temporary file
  \<^verbatim>\<open>t\<close> exists after the run has ended with the exception.
\<close>

theorem run_job_staged_file_counterexample:
  "fst (run_job sql_yaml (Inr (backups None None)) snapshot_schema ''local.db'' world1)
     = Inl JSONDecodeError \<and>
   files world1 = [] \<and>
   files (snd (run_job sql_yaml (Inr (backups None None)) snapshot_schema ''local.db'' world1))
     = [(''t'', None)]"
  by code_simp

section \<open>The load across the three tables\<close>

text \<open>
  C1, as the code has it. For a validated snapshot the load is three calls of
  \<^verbatim>\<open>insert_to_db\<close>, for sessions, events and event_parents in this order, each with
  its own connection and its own commit. Each call is atomic for its table, the
  three together are not: the run ends with the first exception of a call, and the
  store then holds what the calls before it committed and nothing of the failing call
  or of those after it. When the store cannot be opened the first call raises and
  nothing is loaded.
\<close>

theorem run_job_loads_per_table:
  assumes "latest_blob c = Some b" "find (\<lambda>b'. name b' = name b) c = Some d"
    "blob_content d = Some doc" "conforms doc"
  shows "fst (run_job sql (Inr c) conforms p w) =
           (if can_open w p
            then (case fst (per_table_load sql doc p (stores w p)) of
                    Inl e \<Rightarrow> Inl e | Inr u \<Rightarrow> Inr ''Job ran successfully.'')
            else Inl OperationalError) \<and>
         stores (snd (run_job sql (Inr c) conforms p w)) =
           (if can_open w p
            then (stores w)(p := snd (per_table_load sql doc p (stores w p)))
            else stores w)"
proof -
  let ?f = "fresh_path (files w)"
  let ?w2 = "w\<lparr>files := (?f, blob_content d) # files w,
          log_lines := log_lines w @
            [Calling ''run_job'', Calling ''load_yaml'', Returned ''load_yaml'',
             Calling ''connect_to_storage_account'', Calling ''load_yaml'', Returned ''load_yaml'',
             Returned ''connect_to_storage_account'',
             Calling ''download_latest_json'', Returned ''download_latest_json'',
             Calling ''validate_json_string'', Returned ''validate_json_string'']\<rparr>"
  have staged: "map_of (files ?w2) ?f = Some (Some doc)"
    using assms(3) by simp
  have body: "run_job_body sql (Inr c) conforms p (w\<lparr>log_lines := log_lines w @ [Calling ''run_job'']\<rparr>) =
     and_then (insert_to_db ?f ''sessions'' (insert_sessions sql) p) (\<lambda>r1.
     and_then (insert_to_db ?f ''events'' (insert_events sql) p) (\<lambda>r2.
     and_then (insert_to_db ?f ''event_parents'' (insert_event_parents sql) p) (\<lambda>r3 w.
       (Inr ''Job ran successfully.'', w)))) ?w2"
    unfolding run_job_body_fetch [OF assms(1,2)] and_then_case [of "validate_json_string _ _"]
    using assms(3,4) by (simp add: validate_json_string_eq)
  show ?thesis
  proof (cases "can_open w p")
    case True
    then have "can_open ?w2 p" by (simp add: can_open_frame)
    from loads_eq [OF staged this, of sql] True show ?thesis
      unfolding run_job_def log_this_def Let_def body by simp
  next
    case False
    then have "\<not> can_open ?w2 p" by (simp add: can_open_frame)
    from loads_closed [OF this, of "fresh_path (files w)" sql] False show ?thesis
      unfolding run_job_def log_this_def Let_def body by simp
  qed
qed

text \<open>
  The snapshot with the doubled edge: the third call raises, the session and the two
  events of the first two calls stay in the store.
\<close>

theorem run_job_loads_per_table_witness:
  "can_open world1 ''local.db'' \<and>
   latest_blob (backups None (Some dup_edge_snapshot)) =
     Some \<lparr>name = ''backup_20240102T000000'', creation_time = 2,
           blob_content = Some dup_edge_snapshot\<rparr> \<and>
   snapshot_schema dup_edge_snapshot \<and>
   fst (run_job sql_yaml (Inr (backups None (Some dup_edge_snapshot))) snapshot_schema
     ''local.db'' world1) = Inl IntegrityError \<and>
   table_rows (stores (snd (run_job sql_yaml (Inr (backups None (Some dup_edge_snapshot)))
     snapshot_schema ''local.db'' world1)) ''local.db'') =
     [[[SText ''s1'', SText ''2024-01-01T00:00:00'', SText ''m'']],
      [[SText ''e1'', SText ''2024-01-01T00:01:00'', SText ''s1'', SInt 1,
        SText ''user_prompt'', SText ''User'', SText ''p'', SText ''hello'', SText ''m''],
       [SText ''e2'', SText ''2024-01-01T00:01:00'', SText ''s1'', SInt 1,
        SText ''user_prompt'', SText ''User'', SText ''p'', SText ''hello'', SText ''m'']],
      []]"
proof -
  let ?b = "\<lparr>name = ''backup_20240102T000000'', creation_time = 2,
             blob_content = Some dup_edge_snapshot\<rparr>"
  have h1: "latest_blob (backups None (Some dup_edge_snapshot)) = Some ?b"
    by (simp add: backups_def latest_blob_def list_blobs_def starts_with_def)
  have h2: "find (\<lambda>b'. name b' = name ?b) (backups None (Some dup_edge_snapshot)) = Some ?b"
    by (simp add: backups_def)
  have h3: "blob_content ?b = Some dup_edge_snapshot" by simp
  have h4: "snapshot_schema dup_edge_snapshot" by code_simp
  have h5: "can_open world1 ''local.db''" by code_simp
  have l1: "fst (per_table_load sql_yaml dup_edge_snapshot ''local.db'' (stores world1 ''local.db''))
      = Inl IntegrityError"
    by code_simp
  have l2: "table_rows (snd (per_table_load sql_yaml dup_edge_snapshot ''local.db''
      (stores world1 ''local.db''))) =
     [[[SText ''s1'', SText ''2024-01-01T00:00:00'', SText ''m'']],
      [[SText ''e1'', SText ''2024-01-01T00:01:00'', SText ''s1'', SInt 1,
        SText ''user_prompt'', SText ''User'', SText ''p'', SText ''hello'', SText ''m''],
       [SText ''e2'', SText ''2024-01-01T00:01:00'', SText ''s1'', SInt 1,
        SText ''user_prompt'', SText ''User'', SText ''p'', SText ''hello'', SText ''m'']],
      []]"
    by code_simp
  from run_job_loads_per_table [where conforms = snapshot_schema and sql = sql_yaml
      and p = "''local.db''" and w = world1, OF h1 h2 h3 h4] h1 h4 h5 l1 l2
  show ?thesis by simp
qed

text \<open>
  The same run, seen from the store: it held no row, the run raises in the third
  table, and one session and two events have been inserted all the same.
\<close>

theorem run_job_not_atomic_counterexample:
  "snapshot_schema dup_edge_snapshot \<and>
   fst (run_job sql_yaml (Inr (backups None (Some dup_edge_snapshot))) snapshot_schema
          ''local.db'' world1) = Inl IntegrityError \<and>
   row_counts (stores world1 ''local.db'') = [0, 0, 0] \<and>
   row_counts (stores (snd (run_job sql_yaml (Inr (backups None (Some dup_edge_snapshot)))
        snapshot_schema ''local.db'' world1)) ''local.db'') = [1, 2, 0]"
  by code_simp

section \<open>Referential enforcement during the load\<close>

text \<open>
  C2, evaluated on the code. \<^verbatim>\<open>insert_to_db\<close> opens its own connection and never
  switches enforcement on, so on an initialized store with no session the event that
  names the session \<^verbatim>\<open>missing\<close> is inserted and committed. The same row on a
  connection with enforcement on is refused.
\<close>

theorem insert_to_db_accepts_orphan_event:
  "fst (insert_to_db ''staged.json'' ''events'' (insert_events sql_yaml) ''local.db''
          (staged (Some orphan_snapshot))) = Inr ''Data inserted successfully to events.'' \<and>
   table_rows (stores (snd (insert_to_db ''staged.json'' ''events'' (insert_events sql_yaml)
        ''local.db'' (staged (Some orphan_snapshot)))) ''local.db'') =
     [[], [[SText ''e1'', SText ''2024-01-01T00:01:00'', SText ''missing'', SInt 1,
            SText ''user_prompt'', SText ''User'', SText ''p'', SText ''hello'', SText ''m'']], []] \<and>
   fst (insert_rows ((open_connection ''local.db'' (store_of NoAction [] [] []))
            \<lparr>foreign_keys := True\<rparr>)
          (insert_events sql_yaml) [event_row ''e1'' ''missing'']) = Inl IntegrityError"
  by code_simp

section \<open>Store initialization\<close>

lemma exec_ddl_again:
  "if_not_exists s \<Longrightarrow> exec_ddl s db = Inr db' \<Longrightarrow> exec_ddl s db' = Inr db'"
  by (cases s) (auto split: if_splits option.splits)

lemma exec_ddl_journal_mode:
  "exec_ddl s db = Inr db' \<Longrightarrow> journal_mode db' = journal_mode db"
  by (cases s) (auto split: if_splits option.splits)

lemma exec_ddl_stable:
  assumes "if_not_exists s" "exec_ddl s db = Inr db" "exec_ddl s' db = Inr db'"
  shows "exec_ddl s db' = Inr db'"
proof (cases s)
  case (CreateTable b n t)
  with assms(1) have b: "b" by simp
  have "n \<in> fst ` set (tables db)"
  proof (rule ccontr)
    assume "n \<notin> fst ` set (tables db)"
    with assms(2) CreateTable have "db\<lparr>tables := tables db @ [(n, t\<lparr>rows := []\<rparr>)]\<rparr> = db"
      by (auto split: if_splits)
    then have "tables (db\<lparr>tables := tables db @ [(n, t\<lparr>rows := []\<rparr>)]\<rparr>) = tables db"
      by simp
    then show False by simp
  qed
  moreover have "fst ` set (tables db) \<subseteq> fst ` set (tables db')"
    using assms(3) by (cases s') (auto split: if_splits option.splits)
  ultimately show ?thesis using CreateTable b by auto
next
  case (CreateIndex b n tn cs)
  with assms(1) have b: "b" by simp
  from assms(2) CreateIndex obtain t where t: "map_of (tables db) tn = Some t"
    by (auto split: option.splits)
  from assms(2) CreateIndex t have nt: "n \<notin> fst ` set (tables db)"
    by (auto split: if_splits)
  have ni: "n \<in> fst ` set (indices db)"
  proof (rule ccontr)
    assume "n \<notin> fst ` set (indices db)"
    with assms(2) CreateIndex t nt have "db\<lparr>indices := indices db @ [(n, tn, cs)]\<rparr> = db"
      by (auto split: if_splits)
    then have "indices (db\<lparr>indices := indices db @ [(n, tn, cs)]\<rparr>) = indices db"
      by simp
    then show False by simp
  qed
  have t': "map_of (tables db') tn = Some t"
    using assms(3) t by (cases s') (auto split: if_splits option.splits)
  have nt': "n \<notin> fst ` set (tables db')"
    using assms(3) nt ni by (cases s') (force split: if_splits option.splits)+
  have ni': "n \<in> fst ` set (indices db')"
    using assms(3) ni by (cases s') (auto split: if_splits option.splits)
  from t' nt' ni' b CreateIndex show ?thesis by auto
qed

lemma exec_script_stable:
  "if_not_exists s \<Longrightarrow> exec_ddl s db = Inr db \<Longrightarrow> exec_script ss db = (Inr (), db') \<Longrightarrow>
   exec_ddl s db' = Inr db'"
proof (induction ss arbitrary: db)
  case Nil
  then show ?case by simp
next
  case (Cons s' ss)
  from Cons.prems(3) obtain db1 where d: "exec_ddl s' db = Inr db1" "exec_script ss db1 = (Inr (), db')"
    by (auto split: sum.splits)
  from exec_ddl_stable [OF Cons.prems(1,2) d(1)] have "exec_ddl s db1 = Inr db1" .
  from Cons.IH [OF Cons.prems(1) this d(2)] show ?case .
qed

lemma exec_script_satisfied:
  "list_all if_not_exists ss \<Longrightarrow> exec_script ss db = (Inr (), db') \<Longrightarrow>
   list_all (\<lambda>s. exec_ddl s db' = Inr db') ss"
proof (induction ss arbitrary: db)
  case Nil
  then show ?case by simp
next
  case (Cons s ss)
  from Cons.prems(2) obtain db1 where d: "exec_ddl s db = Inr db1" "exec_script ss db1 = (Inr (), db')"
    by (auto split: sum.splits)
  from Cons.prems(1) have i: "if_not_exists s" "list_all if_not_exists ss" by simp_all
  from exec_ddl_again [OF i(1) d(1)] have "exec_ddl s db1 = Inr db1" .
  from exec_script_stable [OF i(1) this d(2)] have "exec_ddl s db' = Inr db'" .
  with Cons.IH [OF i(2) d(2)] show ?case by simp
qed

lemma exec_script_noop:
  "list_all (\<lambda>s. exec_ddl s db = Inr db) ss \<Longrightarrow> exec_script ss db = (Inr (), db)"
  by (induction ss) auto

lemma exec_script_again:
  "list_all if_not_exists ss \<Longrightarrow> exec_script ss db = (Inr (), db') \<Longrightarrow>
   exec_script ss db' = (Inr (), db')"
  by (rule exec_script_noop) (rule exec_script_satisfied)

lemma exec_script_journal_mode:
  "exec_script ss db = (Inr (), db') \<Longrightarrow> journal_mode db' = journal_mode db"
proof (induction ss arbitrary: db)
  case Nil
  then show ?case by simp
next
  case (Cons s ss)
  then show ?case by (auto split: sum.splits dest: exec_ddl_journal_mode)
qed


lemma create_db_closed:
  "\<not> can_open w p \<Longrightarrow> create_db script p wal w = (Inl OperationalError, w)"
  by (simp add: create_db_def connect_def Let_def)

lemma create_db_eq:
  assumes "can_open w p"
  shows "create_db script p wal w =
     (fst (exec_script script
             (if wal then (stores w p)\<lparr>journal_mode := WAL\<rparr> else stores w p)),
      w\<lparr>stores := (stores w)(p := snd (exec_script script
             (if wal then (stores w p)\<lparr>journal_mode := WAL\<rparr> else stores w p)))\<rparr>)"
proof -
  have m1: "makedirs ''.'' (w\<lparr>open_conns := Suc (open_conns w)\<rparr>) =
      w\<lparr>open_conns := Suc (open_conns w)\<rparr>"
    by (simp add: makedirs_def dir_exists_def)
  have m2: "makedirs (dirname p) (w\<lparr>open_conns := Suc (open_conns w)\<rparr>) =
      w\<lparr>open_conns := Suc (open_conns w)\<rparr>"
    using assms by (simp add: makedirs_def can_open_def dir_exists_def)
  show ?thesis
    using assms
    by (simp add: create_db_def connect_def open_connection_def executescript_def commit_def
        close_def Let_def m1 m2 split: sum.splits)
qed

lemma schema_sql_if_not_exists: "list_all if_not_exists (schema_sql a)"
  by (simp add: schema_sql_def)

text \<open>
  On a path whose directory exists, a call that follows a successful call succeeds and
  changes nothing.
\<close>

lemma create_db_again:
  assumes "list_all if_not_exists script" "fst (create_db script p wal w) = Inr ()"
  shows "create_db script p wal (snd (create_db script p wal w)) =
           (Inr (), snd (create_db script p wal w))"
proof -
  have op: "can_open w p"
    using assms(2) by (cases "can_open w p") (simp_all add: create_db_closed)
  let ?db0 = "if wal then (stores w p)\<lparr>journal_mode := WAL\<rparr> else stores w p"
  obtain db' where r: "exec_script script ?db0 = (Inr (), db')"
    using assms(2) unfolding create_db_eq [OF op] by (cases "exec_script script ?db0") auto
  have j: "wal \<Longrightarrow> journal_mode db' = WAL"
    using exec_script_journal_mode [OF r] by simp
  have again: "exec_script script db' = (Inr (), db')"
    by (rule exec_script_again [OF assms(1) r])
  have w1: "snd (create_db script p wal w) = w\<lparr>stores := (stores w)(p := db')\<rparr>"
    unfolding create_db_eq [OF op] using r by simp
  have op': "can_open (w\<lparr>stores := (stores w)(p := db')\<rparr>) p"
    using op by (simp add: can_open_frame)
  have "create_db script p wal (w\<lparr>stores := (stores w)(p := db')\<rparr>) =
          (Inr (), w\<lparr>stores := (stores w)(p := db')\<rparr>)"
  proof (cases wal)
    case True
    with j have "journal_mode db' = WAL" by simp
    then have "db'\<lparr>journal_mode := WAL\<rparr> = db'"
      by (cases db') simp
    with again True show ?thesis
      unfolding create_db_eq [OF op'] by simp
  next
    case False
    with again show ?thesis
      unfolding create_db_eq [OF op'] by simp
  qed
  then show ?thesis
    unfolding w1 .
qed

lemma exec_script_fresh:
  "exec_script (schema_sql a) (empty_db\<lparr>journal_mode := m\<rparr>) =
     (Inr (), (store_of a [] [] [])\<lparr>journal_mode := m\<rparr>)"
  by (simp add: schema_sql_def empty_db_def store_of_def sessions_table_def events_table_def
      event_parents_table_def)

lemma exec_script_initialized:
  "exec_script (schema_sql a) (store_of a ss es ps) = (Inr (), store_of a ss es ps)"
  by (simp add: schema_sql_def store_of_def sessions_table_def events_table_def
      event_parents_table_def)

text \<open>
  On a path whose directory exists: a repeated call is a no-op, a path with no store
  gets exactly the three tables and the two indices, all under different names, and
  a store that is laid out already is left as it is.
\<close>

lemma create_db_in_existing_directory:
  assumes op: "can_open w p"
  shows "(fst (create_db (schema_sql a) p wal w) = Inr () \<longrightarrow>
      create_db (schema_sql a) p wal (snd (create_db (schema_sql a) p wal w)) =
        (Inr (), snd (create_db (schema_sql a) p wal w))) \<and>
   (stores w p = empty_db \<longrightarrow>
      fst (create_db (schema_sql a) p wal w) = Inr () \<and>
      stores (snd (create_db (schema_sql a) p wal w)) p =
        (store_of a [] [] [])\<lparr>journal_mode := (if wal then WAL else RollbackJournal)\<rparr> \<and>
      distinct (map fst (tables (stores (snd (create_db (schema_sql a) p wal w)) p)) @
                map fst (indices (stores (snd (create_db (schema_sql a) p wal w)) p)))) \<and>
   (stores w p = store_of a ss es ps \<longrightarrow> create_db (schema_sql a) p wal w = (Inr (), w))"
proof (intro conjI impI)
  assume "fst (create_db (schema_sql a) p wal w) = Inr ()"
  then show "create_db (schema_sql a) p wal (snd (create_db (schema_sql a) p wal w)) =
        (Inr (), snd (create_db (schema_sql a) p wal w))"
    by (rule create_db_again [OF schema_sql_if_not_exists])
next
  assume fresh: "stores w p = empty_db"
  have e: "empty_db = empty_db\<lparr>journal_mode := RollbackJournal\<rparr>"
    by (simp add: empty_db_def)
  have r: "exec_script (schema_sql a)
      (if wal then (stores w p)\<lparr>journal_mode := WAL\<rparr> else stores w p) =
      (Inr (), (store_of a [] [] [])\<lparr>journal_mode := (if wal then WAL else RollbackJournal)\<rparr>)"
    using exec_script_fresh [of a WAL] exec_script_fresh [of a RollbackJournal] fresh e
    by (cases wal) simp_all
  show "fst (create_db (schema_sql a) p wal w) = Inr ()"
    unfolding create_db_eq [OF op] r by simp
  show s: "stores (snd (create_db (schema_sql a) p wal w)) p =
        (store_of a [] [] [])\<lparr>journal_mode := (if wal then WAL else RollbackJournal)\<rparr>"
    unfolding create_db_eq [OF op] r by simp
  show "distinct (map fst (tables (stores (snd (create_db (schema_sql a) p wal w)) p)) @
                map fst (indices (stores (snd (create_db (schema_sql a) p wal w)) p)))"
    unfolding s by (simp add: store_of_def)
next
  assume init: "stores w p = store_of a ss es ps"
  have j: "(store_of a ss es ps)\<lparr>journal_mode := WAL\<rparr> = store_of a ss es ps"
    by (simp add: store_of_def)
  have r: "exec_script (schema_sql a)
      (if wal then (stores w p)\<lparr>journal_mode := WAL\<rparr> else stores w p) =
      (Inr (), stores w p)"
    unfolding init using exec_script_initialized [of a ss es ps] j by simp
  show "create_db (schema_sql a) p wal w = (Inr (), w)"
    unfolding create_db_eq [OF op] r by simp
qed

text \<open>
  C6, evaluated on the code. \<^verbatim>\<open>create_db\<close> opens the connection before it creates
  the directory of the path, so on the path \<^verbatim>\<open>database/local.db\<close> of its own
  docstring, in a world where the directory \<^verbatim>\<open>database\<close> does not exist, the call
  raises \<open>OperationalError\<close>, creates neither the directory nor the store, and the
  second call raises again.
\<close>

theorem create_db_missing_directory:
  "dirname ''database/local.db'' = ''database'' \<and>
   dirs world0 = [] \<and>
   fst (create_db (schema_sql NoAction) ''database/local.db'' True world0) =
     Inl OperationalError \<and>
   dirs (snd (create_db (schema_sql NoAction) ''database/local.db'' True world0)) = [] \<and>
   tables (stores (snd (create_db (schema_sql NoAction) ''database/local.db'' True world0))
     ''database/local.db'') = [] \<and>
   fst (create_db (schema_sql NoAction) ''database/local.db'' True
          (snd (create_db (schema_sql NoAction) ''database/local.db'' True world0))) =
     Inl OperationalError"
  by code_simp

section \<open>Deleting an event\<close>


















end
